theory Spec2Isabelle
  imports Main "HOL-Library.Word"
begin

unbundle bit_operations_syntax

section \<open>Lisp values and the object store\<close>

text \<open>
  The stream code of \<^verbatim>\<open>streams.c\<close> works on tagged Lisp values (\<^verbatim>\<open>VALUE\<close>).
  Integers, symbols and buffer positions are modelled as immediate values, every
  other object lives in a store and is named by its address: the store is a list of
  objects, an address is an index into it, and a new object is put at its end.  A C
  expression of type \<^verbatim>\<open>VALUE\<close> that may be \<^verbatim>\<open>LISP_NULL\<close> is an \<open>lval option\<close>, with
  \<open>None\<close> for \<^verbatim>\<open>LISP_NULL\<close>; the symbol \<^verbatim>\<open>nil\<close> is an ordinary value, different from
  \<^verbatim>\<open>LISP_NULL\<close> (the source tests \<^verbatim>\<open>(tmp = call_lisp1(..)) && !NILP(tmp)\<close>).

  The C \<^verbatim>\<open>int\<close> and \<^verbatim>\<open>long\<close> values and the Lisp integers are unbounded integers here:
  the lengths and offsets that the stream code computes itself are taken to stay within
  the range of the machine types.  The integers that the caller of \<^verbatim>\<open>write\<close> passes
  are not: \<^verbatim>\<open>cmd_write\<close> assigns \<^verbatim>\<open>VINT\<close> of its arguments, a \<^verbatim>\<open>long\<close>, to an
  \<^verbatim>\<open>int\<close>, which keeps the low 32 bits in two's complement (\<open>c_int\<close>).
  Characters are octets (\<open>8 word\<close>); a character travelling as an \<^verbatim>\<open>int\<close> is its
  unsigned value, and \<^verbatim>\<open>EOF\<close> is \<open>-1\<close>.
\<close>

type_synonym byte = "8 word"

type_synonym addr = nat

type_synonym handle = nat

type_synonym pos = "int \<times> int"

datatype lval =
    LInt int
  | LSym string
  | LPos int int
  | LPtr addr

definition sym_nil :: lval where "sym_nil = LSym ''nil''"

definition sym_t :: lval where "sym_t = LSym ''t''"

definition sym_lambda :: lval where "sym_lambda = LSym ''lambda''"

definition sym_standard_input :: lval where "sym_standard_input = LSym ''standard-input''"

definition sym_standard_output :: lval where "sym_standard_output = LSym ''standard-output''"

definition sym_invalid_stream :: lval where "sym_invalid_stream = LSym ''invalid-stream''"

definition sym_file_error :: lval where "sym_file_error = LSym ''file-error''"

definition sym_bad_arg :: lval where "sym_bad_arg = LSym ''bad-arg''"

definition NILP :: "lval \<Rightarrow> bool" where
  "NILP v = (v = sym_nil)"

definition EOF :: int where
  "EOF = - 1"


text \<open>
  A string object: its storage (\<^verbatim>\<open>VSTR\<close>, every allocated byte, the terminator
  included), its length field (\<^verbatim>\<open>STRING_LEN\<close>) and whether it may be written
  (\<^verbatim>\<open>STRING_WRITABLE_P\<close>).
\<close>

record lisp_string =
  str_mem :: "byte list"
  str_len :: nat
  str_writable :: bool

text \<open>
  \<^verbatim>\<open>Lisp_File\<close>: the bound name (\<^verbatim>\<open>LISP_NULL\<close> when unbound), the stdio handle
  (\<^verbatim>\<open>NULL\<close> when there is none), the \<^verbatim>\<open>LFF_DONT_CLOSE\<close> bit of \<^verbatim>\<open>car\<close> and the
  cell's garbage-collector mark.  The \<^verbatim>\<open>next\<close> pointers are kept as the list
  \<open>lfile_chain\<close> of the world, head first.
\<close>

record Lisp_File =
  lf_name :: "lval option"
  lf_file :: "handle option"
  LFF_DONT_CLOSE :: bool
  GC_CELL_MARKED :: bool

text \<open>
  An editor buffer (\<^verbatim>\<open>TX\<close>) as far as \<^verbatim>\<open>pos_getc\<close> and \<^verbatim>\<open>POS_UNGETC\<close> read it: the
  array of lines, each with its storage and its length \<^verbatim>\<open>ln_Strlen\<close> (which counts the
  terminator), the logical end, and the cursor that \<^verbatim>\<open>get_tx_cursor_ptr\<close> points to.
  A position is the pair (column, row) that \<^verbatim>\<open>make_pos(col, row)\<close> builds.  A mark has
  its \<^verbatim>\<open>MKFF_RESIDENT\<close> flag, the address of its buffer (\<^verbatim>\<open>mk_File.tx\<close>) and its
  position.
\<close>

record LINE =
  ln_Line :: "byte list"
  ln_Strlen :: int

record TX =
  tx_Lines :: "LINE list"
  tx_LogicalEnd :: int
  tx_cursor :: pos

record Lisp_Mark =
  MKFF_RESIDENT :: bool
  mk_tx :: addr
  mk_Pos :: pos

datatype obj =
    OCons lval lval
  | OString lisp_string
  | OFile Lisp_File
  | OBuffer TX
  | OMark Lisp_Mark
  | OProcess
  | OOther
  | OFree


text \<open>The status line of the current window, as far as the stream code touches it.\<close>

record WIN =
  WINFF_MESSAGE :: bool
  w_Message :: "byte list"
  VWFF_FORCE_REFRESH :: bool

text \<open>
  The interpreter state.  \<open>signals\<close> lists the conditions raised by \<^verbatim>\<open>cmd_signal\<close>,
  oldest first, each with its argument list; \<open>host\<close> is the state of the C library
  and of the operating system (open files, subprocesses).
\<close>

record 'h world =
  heap :: "obj list"
  lfile_chain :: "addr list"
  signals :: "(lval \<times> lval list) list"
  gc_inhibit :: bool
  curr_win :: WIN
  host :: 'h

text \<open>
  The collaborators of \<^verbatim>\<open>streams.c\<close> that are defined elsewhere (symbol lookup,
  function application, the editor buffer primitives, the status line, subprocesses,
  the allocator, the interrupt test) and the C library are parameters of the model.
  \<open>call_lisp f args\<close> stands for \<^verbatim>\<open>call_lisp0\<close> and \<^verbatim>\<open>call_lisp1\<close>; \<open>malloc w n\<close>
  is \<open>None\<close> when an allocation of \<open>n\<close> bytes fails and otherwise gives the
  (arbitrary) initial contents of the block; \<open>alloc_cell w\<close> tells whether the
  allocation of a fixed-size cell (a cons, a file object) succeeds.

  The macro \<^verbatim>\<open>STRING_LEN\<close> comes from a header that is not part of \<^verbatim>\<open>streams.c\<close>.
  Whether its value has an unsigned type decides how \<^verbatim>\<open>actual > STRING_LEN(data)\<close>
  in \<^verbatim>\<open>cmd_write\<close> compares a negative \<^verbatim>\<open>int\<close>; this is the parameter
  \<open>STRING_LEN_unsigned\<close>.
\<close>

record 'h env =
  cmd_symbol_value :: "lval \<Rightarrow> lval \<Rightarrow> 'h world \<Rightarrow> lval option \<times> 'h world"
  call_lisp :: "lval \<Rightarrow> lval list \<Rightarrow> 'h world \<Rightarrow> lval option \<times> 'h world"
  c_getc :: "handle \<Rightarrow> 'h \<Rightarrow> int \<times> 'h"
  c_ungetc :: "int \<Rightarrow> handle \<Rightarrow> 'h \<Rightarrow> int \<times> 'h"
  c_putc :: "int \<Rightarrow> handle \<Rightarrow> 'h \<Rightarrow> int \<times> 'h"
  c_fwrite :: "byte list \<Rightarrow> handle \<Rightarrow> 'h \<Rightarrow> int \<times> 'h"
  c_fopen :: "byte list \<Rightarrow> byte list \<Rightarrow> 'h \<Rightarrow> handle option \<times> 'h"
  c_fclose :: "handle \<Rightarrow> 'h \<Rightarrow> 'h"
  c_fcntl_setfd :: "handle \<Rightarrow> 'h \<Rightarrow> 'h"
  lookup_errno :: "'h world \<Rightarrow> lval \<times> 'h world"
  write_to_process :: "lval \<Rightarrow> byte list \<Rightarrow> int \<Rightarrow> 'h world \<Rightarrow> int \<times> 'h world"
  read_only :: "addr \<Rightarrow> 'h world \<Rightarrow> bool"
  pad_pos :: "addr \<Rightarrow> pos \<Rightarrow> 'h world \<Rightarrow> bool \<times> 'h world"
  insert_string :: "addr \<Rightarrow> byte list \<Rightarrow> int \<Rightarrow> pos \<Rightarrow> 'h world \<Rightarrow> pos option \<times> 'h world"
  cmd_restriction_end :: "addr \<Rightarrow> 'h world \<Rightarrow> pos"
  messagen :: "byte list \<Rightarrow> int \<Rightarrow> 'h world \<Rightarrow> 'h world"
  malloc :: "'h world \<Rightarrow> nat \<Rightarrow> byte list option"
  alloc_cell :: "'h world \<Rightarrow> bool"
  test_int :: "'h world \<Rightarrow> bool \<times> 'h world"
  STRING_LEN_unsigned :: bool

subsection \<open>Accessors\<close>

text \<open>
  Throughout, a result \<open>None\<close> of an operation means that the C code has no defined
  result there: it reads or writes outside an object, follows a pointer to no object,
  or (for the two unbounded loops) never returns.
\<close>

definition deref :: "'h world \<Rightarrow> lval \<Rightarrow> obj option" where
  "deref w v =
     (case v of
        LPtr a \<Rightarrow> (if a < length (heap w) then Some (heap w ! a) else None)
      | _ \<Rightarrow> None)"

definition store :: "'h world \<Rightarrow> addr \<Rightarrow> obj \<Rightarrow> 'h world" where
  "store w a ob = w\<lparr>heap := (heap w)[a := ob]\<rparr>"


definition VSTRING :: "'h world \<Rightarrow> lval \<Rightarrow> lisp_string option" where
  "VSTRING w v = (case deref w v of Some (OString s) \<Rightarrow> Some s | _ \<Rightarrow> None)"

definition VTX :: "'h world \<Rightarrow> lval \<Rightarrow> TX option" where
  "VTX w v = (case deref w v of Some (OBuffer tx) \<Rightarrow> Some tx | _ \<Rightarrow> None)"

definition byte_at :: "byte list \<Rightarrow> int \<Rightarrow> byte option" where
  "byte_at mem i = (if 0 \<le> i \<and> nat i < length mem then Some (mem ! nat i) else None)"

definition line_at :: "TX \<Rightarrow> int \<Rightarrow> LINE option" where
  "line_at tx row =
     (if 0 \<le> row \<and> nat row < length (tx_Lines tx) then Some (tx_Lines tx ! nat row) else None)"

text \<open>
  Modelled from the spec: \<^verbatim>\<open>cmd_signal\<close> (\<open>signal(kind, list-of-args)\<close>), defined outside
  \<^verbatim>\<open>streams.c\<close>, raises a condition and yields \<^verbatim>\<open>LISP_NULL\<close>, after which the caller
  goes on.  The condition is recorded in \<open>signals\<close>; the argument list built by
  \<^verbatim>\<open>LIST_1\<close> and \<^verbatim>\<open>list_2\<close> is kept as a list of values.
\<close>

definition cmd_signal :: "'h world \<Rightarrow> lval \<Rightarrow> lval list \<Rightarrow> 'h world" where
  "cmd_signal w err args = w\<lparr>signals := signals w @ [(err, args)]\<rparr>"

text \<open>
  The two messages declared with \<^verbatim>\<open>DEFSTRING\<close>.  They are static strings, not objects of
  the store, and occur only as arguments of conditions; each is represented by an
  immediate value carrying its text.
\<close>

definition non_resident :: lval where
  "non_resident = LSym ''Marks used as streams must be resident''"

definition proc_not_input :: lval where
  "proc_not_input = LSym ''Processes are not input streams''"

section \<open>Position input\<close>

definition pos_getc :: "TX \<Rightarrow> pos \<Rightarrow> (int \<times> pos) option" where
  "pos_getc tx p =
     (let col = fst p; row = snd p in
      if row < tx_LogicalEnd tx then
        (case line_at tx row of
           None \<Rightarrow> None
         | Some ln \<Rightarrow>
             if col \<ge> ln_Strlen ln - 1 then
               (if row + 1 = tx_LogicalEnd tx then Some (EOF, (col, row))
                else Some (10, (0, row + 1)))
             else
               (case byte_at (ln_Line ln) col of
                  None \<Rightarrow> None
                | Some b \<Rightarrow> Some (uint b, (col + 1, row))))
      else Some (EOF, (col, row)))"

text \<open>
  The macro \<^verbatim>\<open>POS_UNGETC(p, tx)\<close>, as the new value of \<open>p\<close>.  It evaluates its buffer
  argument only when the column runs below zero; the argument is given as \<open>None\<close> when
  the expression written for it names no buffer.
\<close>

definition POS_UNGETC :: "pos \<Rightarrow> TX option \<Rightarrow> pos option" where
  "POS_UNGETC p tx =
     (let row = snd p; col = fst p - 1 in
      if col < 0 then
        (case tx of
           None \<Rightarrow> None
         | Some t \<Rightarrow>
             (case line_at t (row - 1) of
                None \<Rightarrow> None
              | Some ln \<Rightarrow> Some (ln_Strlen ln - 1, row - 1)))
      else Some (col, row))"

section \<open>The stream primitives\<close>

text \<open>
  The test at the head of each primitive: a \<^verbatim>\<open>nil\<close> stream is replaced by the value
  of the given symbol, \<^verbatim>\<open>cmd_symbol_value(sym, sym_nil)\<close>; the primitive returns at
  once when that call yields \<^verbatim>\<open>LISP_NULL\<close>.
\<close>

definition default_stream ::
  "'h env \<Rightarrow> lval \<Rightarrow> 'h world \<Rightarrow> lval \<Rightarrow> lval option \<times> 'h world" where
  "default_stream env var w stream =
     (if NILP stream then cmd_symbol_value env var sym_nil w else (Some stream, w))"

text \<open>The \<^verbatim>\<open>V_Symbol\<close> branch of \<^verbatim>\<open>stream_getc\<close>, which the lambda cons falls into.\<close>

definition getc_funcall :: "'h env \<Rightarrow> 'h world \<Rightarrow> lval \<Rightarrow> int \<times> 'h world" where
  "getc_funcall env w stream =
     (let oldgci = gc_inhibit w;
          r = call_lisp env stream [] (w\<lparr>gc_inhibit := True\<rparr>);
          c = (case fst r of Some (LInt i) \<Rightarrow> i | _ \<Rightarrow> EOF)
      in (c, (snd r)\<lparr>gc_inhibit := oldgci\<rparr>))"

definition getc_cons :: "'h env \<Rightarrow> 'h world \<Rightarrow> addr \<Rightarrow> lval \<Rightarrow> lval \<Rightarrow> (int \<times> 'h world) option" where
  "getc_cons env w a car cdr =
     (case (car, VSTRING w cdr) of
        (LInt i, Some s) \<Rightarrow>
          (case byte_at (str_mem s) i of
             None \<Rightarrow> None
           | Some b \<Rightarrow>
               if b \<noteq> 0 then Some (uint b, store w a (OCons (LInt (i + 1)) cdr))
               else Some (EOF, w))
      | _ \<Rightarrow>
          (case (VTX w car, cdr) of
             (Some tx, LPos col row) \<Rightarrow>
               (case pos_getc tx (col, row) of
                  None \<Rightarrow> None
                | Some (c, p) \<Rightarrow> Some (c, store w a (OCons car (LPos (fst p) (snd p)))))
           | _ \<Rightarrow>
               if car \<noteq> sym_lambda
               then Some (EOF, cmd_signal w sym_invalid_stream [LPtr a])
               else Some (getc_funcall env w (LPtr a))))"

definition stream_getc :: "'h env \<Rightarrow> 'h world \<Rightarrow> lval \<Rightarrow> (int \<times> 'h world) option" where
  "stream_getc env w0 stream0 =
     (case default_stream env sym_standard_input w0 stream0 of
        (None, w) \<Rightarrow> Some (EOF, w)
      | (Some stream, w) \<Rightarrow>
          (case stream of
             LSym _ \<Rightarrow> Some (getc_funcall env w stream)
           | LPtr a \<Rightarrow>
               (case deref w stream of
                  Some (OFile lf) \<Rightarrow>
                    (if lf_name lf \<noteq> None then
                       (case lf_file lf of
                          None \<Rightarrow> None
                        | Some fh \<Rightarrow>
                            (let r = c_getc env fh (host w)
                             in Some (fst r, w\<lparr>host := snd r\<rparr>)))
                     else Some (EOF, w))
                | Some (OMark mk) \<Rightarrow>
                    (if \<not> MKFF_RESIDENT mk
                     then Some (EOF, cmd_signal w sym_invalid_stream [stream, non_resident])
                     else
                       (case VTX w (LPtr (mk_tx mk)) of
                          None \<Rightarrow> None
                        | Some tx \<Rightarrow>
                            (case pos_getc tx (mk_Pos mk) of
                               None \<Rightarrow> None
                             | Some (c, p) \<Rightarrow> Some (c, store w a (OMark (mk\<lparr>mk_Pos := p\<rparr>))))))
                | Some (OBuffer tx) \<Rightarrow>
                    (case pos_getc tx (tx_cursor tx) of
                       None \<Rightarrow> None
                     | Some (c, p) \<Rightarrow> Some (c, store w a (OBuffer (tx\<lparr>tx_cursor := p\<rparr>))))
                | Some (OCons car cdr) \<Rightarrow> getc_cons env w a car cdr
                | Some OProcess \<Rightarrow>
                    Some (EOF, cmd_signal w sym_invalid_stream [stream, proc_not_input])
                | Some (OString _) \<Rightarrow> Some (EOF, cmd_signal w sym_invalid_stream [stream])
                | Some OOther \<Rightarrow> Some (EOF, cmd_signal w sym_invalid_stream [stream])
                | Some OFree \<Rightarrow> None
                | None \<Rightarrow> None)
           | _ \<Rightarrow> Some (EOF, cmd_signal w sym_invalid_stream [stream])))"

subsection \<open>Unget\<close>

definition ungetc_funcall :: "'h env \<Rightarrow> 'h world \<Rightarrow> lval \<Rightarrow> int \<Rightarrow> int \<times> 'h world" where
  "ungetc_funcall env w stream c =
     (let tmp = LInt c;
          oldgci = gc_inhibit w;
          r = call_lisp env stream [tmp] (w\<lparr>gc_inhibit := True\<rparr>);
          rc = (case fst r of None \<Rightarrow> 0 | Some v \<Rightarrow> if \<not> NILP v then 1 else 0)
      in (rc, (snd r)\<lparr>gc_inhibit := oldgci\<rparr>))"

definition ungetc_cons ::
  "'h env \<Rightarrow> 'h world \<Rightarrow> addr \<Rightarrow> lval \<Rightarrow> lval \<Rightarrow> int \<Rightarrow> (int \<times> 'h world) option" where
  "ungetc_cons env w a car cdr c =
     (case (car, VSTRING w cdr) of
        (LInt i, Some s) \<Rightarrow> Some (1, store w a (OCons (LInt (i - 1)) cdr))
      | _ \<Rightarrow>
          (case (VTX w car, cdr) of
             (Some tx, LPos col row) \<Rightarrow>
               (case POS_UNGETC (col, row) (Some tx) of
                  None \<Rightarrow> None
                | Some p \<Rightarrow> Some (1, store w a (OCons car (LPos (fst p) (snd p)))))
           | _ \<Rightarrow> Some (ungetc_funcall env w (LPtr a) c)))"

definition stream_ungetc ::
  "'h env \<Rightarrow> 'h world \<Rightarrow> lval \<Rightarrow> int \<Rightarrow> (int \<times> 'h world) option" where
  "stream_ungetc env w0 stream0 c =
     (case default_stream env sym_standard_input w0 stream0 of
        (None, w) \<Rightarrow> Some (0, w)
      | (Some stream, w) \<Rightarrow>
          (case stream of
             LSym _ \<Rightarrow> Some (ungetc_funcall env w stream c)
           | LPtr a \<Rightarrow>
               (case deref w stream of
                  Some (OFile lf) \<Rightarrow>
                    (case lf_file lf of
                       None \<Rightarrow> None
                     | Some fh \<Rightarrow>
                         (let r = c_ungetc env c fh (host w)
                          in Some (if fst r \<noteq> EOF then 1 else 0, w\<lparr>host := snd r\<rparr>)))
                | Some (OMark mk) \<Rightarrow>
                    (case POS_UNGETC (mk_Pos mk) (VTX w (LPtr (mk_tx mk))) of
                       None \<Rightarrow> None
                     | Some p \<Rightarrow> Some (1, store w a (OMark (mk\<lparr>mk_Pos := p\<rparr>))))
                | Some (OBuffer tx) \<Rightarrow>
                    (case POS_UNGETC (tx_cursor tx) (Some tx) of
                       None \<Rightarrow> None
                     | Some p \<Rightarrow> Some (1, store w a (OBuffer (tx\<lparr>tx_cursor := p\<rparr>))))
                | Some (OCons car cdr) \<Rightarrow> ungetc_cons env w a car cdr c
                | Some OProcess \<Rightarrow> Some (0, w)
                | Some (OString _) \<Rightarrow> Some (0, w)
                | Some OOther \<Rightarrow> Some (0, w)
                | Some OFree \<Rightarrow> None
                | None \<Rightarrow> None)
           | _ \<Rightarrow> Some (0, w)))"

subsection \<open>Memory and allocation\<close>

definition poke :: "byte list \<Rightarrow> int \<Rightarrow> byte \<Rightarrow> byte list option" where
  "poke mem i b = (if 0 \<le> i \<and> nat i < length mem then Some (mem[nat i := b]) else None)"

text \<open>\<open>memcpy dst off src n\<close> is \<^verbatim>\<open>memcpy(dst + off, src, n)\<close>.\<close>

definition memcpy :: "byte list \<Rightarrow> int \<Rightarrow> byte list \<Rightarrow> int \<Rightarrow> byte list option" where
  "memcpy dst off src n =
     (if 0 \<le> off \<and> 0 \<le> n \<and> nat (off + n) \<le> length dst \<and> nat n \<le> length src
      then Some (take (nat off) dst @ take (nat n) src @ drop (nat (off + n)) dst)
      else None)"

definition strlen :: "byte list \<Rightarrow> int option" where
  "strlen buf = (if 0 \<in> set buf then Some (int (length (takeWhile (\<lambda>b. b \<noteq> 0) buf))) else None)"

text \<open>
  Modelled from the spec: \<^verbatim>\<open>make_string\<close>, the string allocator named in the spec's
  list of consumed constructors (\<open>make-string(capacity)\<close>), is defined outside
  \<^verbatim>\<open>streams.c\<close>.  It yields a fresh writable string object with room for \<open>n\<close> bytes
  of unspecified contents, or \<^verbatim>\<open>LISP_NULL\<close> when the allocation fails.  New objects
  are appended to the store.
\<close>

definition make_string :: "'h env \<Rightarrow> 'h world \<Rightarrow> int \<Rightarrow> lval option \<times> 'h world" where
  "make_string env w n =
     (if n < 0 then (None, w)
      else
        (case malloc env w (nat n) of
           None \<Rightarrow> (None, w)
         | Some junk \<Rightarrow>
             (Some (LPtr (length (heap w))),
              w\<lparr>heap := heap w @
                 [OString \<lparr>str_mem = take (nat n) (junk @ replicate (nat n) 0),
                           str_len = nat n - 1, str_writable = True\<rparr>]\<rparr>)))"

text \<open>
  Modelled from the spec: \<^verbatim>\<open>string_dupn\<close> (\<open>string-dup-n\<close>), defined outside
  \<^verbatim>\<open>streams.c\<close>, builds a fresh string holding the first \<open>n\<close> bytes of a buffer and a
  terminating zero.
\<close>

definition string_dupn ::
  "'h env \<Rightarrow> 'h world \<Rightarrow> byte list \<Rightarrow> int \<Rightarrow> (lval option \<times> 'h world) option" where
  "string_dupn env w buf n =
     (if 0 \<le> n \<and> nat n \<le> length buf then
        (case malloc env w (nat n + 1) of
           None \<Rightarrow> Some (None, w)
         | Some junk \<Rightarrow>
             Some (Some (LPtr (length (heap w))),
                   w\<lparr>heap := heap w @
                      [OString \<lparr>str_mem = take (nat n) buf @ [0],
                                str_len = nat n, str_writable = True\<rparr>]\<rparr>))
      else None)"

text \<open>
  Modelled from the spec: \<^verbatim>\<open>cmd_cons\<close> (the constructor \<open>cons\<close>), defined outside
  \<^verbatim>\<open>streams.c\<close>, allocates a fresh cons cell.
\<close>

definition cmd_cons :: "'h env \<Rightarrow> 'h world \<Rightarrow> lval \<Rightarrow> lval \<Rightarrow> lval option \<times> 'h world" where
  "cmd_cons env w car cdr =
     (if alloc_cell env w
      then (Some (LPtr (length (heap w))), w\<lparr>heap := heap w @ [OCons car cdr]\<rparr>)
      else (None, w))"

text \<open>
  Modelled from the spec: \<^verbatim>\<open>signal_arg_error\<close>, defined outside \<^verbatim>\<open>streams.c\<close>,
  raises \<open>bad-arg\<close> with the offending value and the argument position (the spec's
  error table) and yields \<^verbatim>\<open>LISP_NULL\<close>.
\<close>

definition signal_arg_error :: "'h world \<Rightarrow> lval \<Rightarrow> int \<Rightarrow> 'h world" where
  "signal_arg_error w ob n = cmd_signal w sym_bad_arg [ob, LInt n]"

section \<open>Position output\<close>

text \<open>
  \<^verbatim>\<open>pos_putc\<close> and \<^verbatim>\<open>pos_puts\<close> return the count (or \<^verbatim>\<open>EOF\<close>), the position to
  store through the caller's pointer (\<open>None\<close> when nothing is stored) and the world
  left by the buffer primitives.
\<close>

definition pos_putc ::
  "'h env \<Rightarrow> 'h world \<Rightarrow> addr \<Rightarrow> pos \<Rightarrow> int \<Rightarrow> int \<times> pos option \<times> 'h world" where
  "pos_putc env w tx p c =
     (if \<not> read_only env tx w then
        (let r = pad_pos env tx p w in
         if fst r then
           (let tmps = [word_of_int c, 0];
                e = insert_string env tx tmps 1 p (snd r)
            in case fst e of
                 Some end \<Rightarrow> (1, Some end, snd e)
               | None \<Rightarrow> (EOF, None, snd e))
         else (EOF, None, snd r))
      else (EOF, None, w))"

definition pos_puts ::
  "'h env \<Rightarrow> 'h world \<Rightarrow> addr \<Rightarrow> pos \<Rightarrow> byte list \<Rightarrow> int \<Rightarrow> int \<times> pos option \<times> 'h world" where
  "pos_puts env w tx p buf bufLen =
     (if \<not> read_only env tx w then
        (let r = pad_pos env tx p w in
         if fst r then
           (let e = insert_string env tx buf bufLen p (snd r)
            in case fst e of
                 Some end \<Rightarrow> (bufLen, Some end, snd e)
               | None \<Rightarrow> (EOF, None, snd e))
         else (EOF, None, snd r))
      else (EOF, None, w))"

text \<open>Storing the new position through the pointer the caller handed over.\<close>

definition set_mk_Pos :: "addr \<Rightarrow> int \<times> pos option \<times> 'h world \<Rightarrow> (int \<times> 'h world) option" where
  "set_mk_Pos a r =
     (case r of
        (rc, None, w) \<Rightarrow> Some (rc, w)
      | (rc, Some p, w) \<Rightarrow>
          (case deref w (LPtr a) of
             Some (OMark mk) \<Rightarrow> Some (rc, store w a (OMark (mk\<lparr>mk_Pos := p\<rparr>)))
           | _ \<Rightarrow> None))"

definition set_tx_cursor :: "addr \<Rightarrow> int \<times> pos option \<times> 'h world \<Rightarrow> (int \<times> 'h world) option" where
  "set_tx_cursor a r =
     (case r of
        (rc, None, w) \<Rightarrow> Some (rc, w)
      | (rc, Some p, w) \<Rightarrow>
          (case deref w (LPtr a) of
             Some (OBuffer tx) \<Rightarrow> Some (rc, store w a (OBuffer (tx\<lparr>tx_cursor := p\<rparr>)))
           | _ \<Rightarrow> None))"

definition set_VCDR :: "addr \<Rightarrow> int \<times> pos option \<times> 'h world \<Rightarrow> (int \<times> 'h world) option" where
  "set_VCDR a r =
     (case r of
        (rc, None, w) \<Rightarrow> Some (rc, w)
      | (rc, Some p, w) \<Rightarrow>
          (case deref w (LPtr a) of
             Some (OCons car cdr) \<Rightarrow> Some (rc, store w a (OCons car (LPos (fst p) (snd p))))
           | _ \<Rightarrow> None))"

section \<open>Writing one character\<close>

text \<open>
  The tail of the string branch of \<^verbatim>\<open>stream_putc\<close>: \<^verbatim>\<open>VSTR(args)[len] = c\<close>,
  \<^verbatim>\<open>VSTR(args)[len+1] = 0\<close>, \<^verbatim>\<open>set_string_len(args, len + 1)\<close>, \<^verbatim>\<open>rc = 1\<close>.
\<close>

definition putc_store :: "'h world \<Rightarrow> lval \<Rightarrow> int \<Rightarrow> int \<Rightarrow> (int \<times> 'h world) option" where
  "putc_store w args len c =
     (case (args, VSTRING w args) of
        (LPtr sa, Some s) \<Rightarrow>
          (case poke (str_mem s) len (word_of_int c) of
             None \<Rightarrow> None
           | Some m1 \<Rightarrow>
               (case poke m1 (len + 1) 0 of
                  None \<Rightarrow> None
                | Some m2 \<Rightarrow>
                    Some (1, store w sa (OString (s\<lparr>str_mem := m2, str_len := nat (len + 1)\<rparr>)))))
      | _ \<Rightarrow> None)"

text \<open>\<^verbatim>\<open>memcpy(VSTR(new), src, len)\<close> on the string object \<open>new\<close> of the store.\<close>

definition memcpy_VSTR :: "'h world \<Rightarrow> lval \<Rightarrow> byte list \<Rightarrow> int \<Rightarrow> 'h world option" where
  "memcpy_VSTR w new src len =
     (case (new, VSTRING w new) of
        (LPtr na, Some ns) \<Rightarrow>
          (case memcpy (str_mem ns) 0 src len of
             None \<Rightarrow> None
           | Some m \<Rightarrow> Some (store w na (OString (ns\<lparr>str_mem := m\<rparr>))))
      | _ \<Rightarrow> None)"

definition putc_string ::
  "'h env \<Rightarrow> 'h world \<Rightarrow> addr \<Rightarrow> lval \<Rightarrow> lisp_string \<Rightarrow> int \<Rightarrow> int \<Rightarrow> (int \<times> 'h world) option" where
  "putc_string env w a args s actuallen c =
     (let len = int (str_len s) in
      if len + 1 \<ge> actuallen then
        (let newlen = (if actuallen < 16 then 32 else actuallen * 2) in
         case make_string env w (newlen + 1) of
           (None, w1) \<Rightarrow> Some (0, w1)
         | (Some new, w1) \<Rightarrow>
             (case memcpy_VSTR w1 new (str_mem s) len of
                None \<Rightarrow> None
              | Some w2 \<Rightarrow> putc_store (store w2 a (OCons new (LInt newlen))) new len c))
      else putc_store w args len c)"

definition putc_funcall :: "'h env \<Rightarrow> 'h world \<Rightarrow> lval \<Rightarrow> int \<Rightarrow> int \<times> 'h world" where
  "putc_funcall env w stream c =
     (let oldgci = gc_inhibit w;
          r = call_lisp env stream [LInt c] (w\<lparr>gc_inhibit := True\<rparr>);
          rc = (case fst r of None \<Rightarrow> 0 | Some res \<Rightarrow> if \<not> NILP res then 1 else 0)
      in (rc, (snd r)\<lparr>gc_inhibit := oldgci\<rparr>))"

text \<open>
  The \<^verbatim>\<open>V_Symbol\<close> branch of \<^verbatim>\<open>stream_putc\<close>.  \<^verbatim>\<open>str_dupn\<close> copies the message into
  a block one byte longer; the message text is kept without its terminator.
\<close>

definition putc_symbol :: "'h env \<Rightarrow> 'h world \<Rightarrow> lval \<Rightarrow> int \<Rightarrow> int \<times> 'h world" where
  "putc_symbol env w stream c =
     (if stream = sym_t then
        (if WINFF_MESSAGE (curr_win w) then
           (case malloc env w (length (w_Message (curr_win w)) + 2) of
              Some junk \<Rightarrow>
                (1, w\<lparr>curr_win := (curr_win w)
                        \<lparr>w_Message := w_Message (curr_win w) @ [word_of_int c],
                         WINFF_MESSAGE := True, VWFF_FORCE_REFRESH := True\<rparr>\<rparr>)
            | None \<Rightarrow> (1, w))
         else (1, messagen env [word_of_int c, 0] 1 w))
      else putc_funcall env w stream c)"

definition putc_cons ::
  "'h env \<Rightarrow> 'h world \<Rightarrow> addr \<Rightarrow> lval \<Rightarrow> lval \<Rightarrow> int \<Rightarrow> (int \<times> 'h world) option" where
  "putc_cons env w a args cdr c =
     (case (VSTRING w args, cdr) of
        (Some s, LInt actuallen) \<Rightarrow>
          (if str_writable s then putc_string env w a args s actuallen c
           else if args \<noteq> sym_lambda
           then Some (0, cmd_signal w sym_invalid_stream [LPtr a])
           else Some (putc_symbol env w (LPtr a) c))
      | _ \<Rightarrow>
          (case (args, VTX w args) of
             (LPtr ta, Some tx) \<Rightarrow>
               (case cdr of
                  LPos col row \<Rightarrow> set_VCDR a (pos_putc env w ta (col, row) c)
                | _ \<Rightarrow>
                    (let p = cmd_restriction_end env ta w;
                         r = pos_putc env w ta p c
                     in Some (fst r, snd (snd r))))
           | _ \<Rightarrow>
               if args \<noteq> sym_lambda
               then Some (0, cmd_signal w sym_invalid_stream [LPtr a])
               else Some (putc_symbol env w (LPtr a) c)))"

definition stream_putc ::
  "'h env \<Rightarrow> 'h world \<Rightarrow> lval \<Rightarrow> int \<Rightarrow> (int \<times> 'h world) option" where
  "stream_putc env w0 stream0 c =
     (case default_stream env sym_standard_output w0 stream0 of
        (None, w) \<Rightarrow> Some (0, w)
      | (Some stream, w) \<Rightarrow>
          (case stream of
             LSym _ \<Rightarrow> Some (putc_symbol env w stream c)
           | LPtr a \<Rightarrow>
               (case deref w stream of
                  Some (OFile lf) \<Rightarrow>
                    (if lf_name lf \<noteq> None then
                       (case lf_file lf of
                          None \<Rightarrow> None
                        | Some fh \<Rightarrow>
                            (let r = c_putc env c fh (host w)
                             in Some (if fst r \<noteq> EOF then 1 else 0, w\<lparr>host := snd r\<rparr>)))
                     else Some (0, w))
                | Some (OMark mk) \<Rightarrow>
                    (if \<not> MKFF_RESIDENT mk
                     then Some (0, cmd_signal w sym_invalid_stream [stream, non_resident])
                     else set_mk_Pos a (pos_putc env w (mk_tx mk) (mk_Pos mk) c))
                | Some (OBuffer tx) \<Rightarrow> set_tx_cursor a (pos_putc env w a (tx_cursor tx) c)
                | Some (OCons args cdr) \<Rightarrow> putc_cons env w a args cdr c
                | Some OProcess \<Rightarrow>
                    Some (write_to_process env stream [word_of_int c, 0] 1 w)
                | Some (OString _) \<Rightarrow> Some (0, cmd_signal w sym_invalid_stream [stream])
                | Some OOther \<Rightarrow> Some (0, cmd_signal w sym_invalid_stream [stream])
                | Some OFree \<Rightarrow> None
                | None \<Rightarrow> None)
           | _ \<Rightarrow> Some (0, cmd_signal w sym_invalid_stream [stream])))"

section \<open>Writing a run of bytes\<close>

text \<open>
  The argument pair \<^verbatim>\<open>(void *data, bool isValString)\<close> of \<^verbatim>\<open>stream_puts\<close>: a Lisp
  string object, or a raw C buffer, given by the bytes that lie at the pointer.
\<close>

datatype puts_data = ValString lval | RawBuf "byte list"

definition puts_store ::
  "'h world \<Rightarrow> lval \<Rightarrow> int \<Rightarrow> byte list \<Rightarrow> int \<Rightarrow> (int \<times> 'h world) option" where
  "puts_store w args len buf bufLen =
     (case (args, VSTRING w args) of
        (LPtr sa, Some s) \<Rightarrow>
          (case memcpy (str_mem s) len buf bufLen of
             None \<Rightarrow> None
           | Some m1 \<Rightarrow>
               (case poke m1 (len + bufLen) 0 of
                  None \<Rightarrow> None
                | Some m2 \<Rightarrow>
                    Some (bufLen,
                          store w sa (OString (s\<lparr>str_mem := m2, str_len := nat (len + bufLen)\<rparr>)))))
      | _ \<Rightarrow> None)"

definition puts_string ::
  "'h env \<Rightarrow> 'h world \<Rightarrow> addr \<Rightarrow> lval \<Rightarrow> lisp_string \<Rightarrow> int \<Rightarrow> byte list \<Rightarrow> int
     \<Rightarrow> (int \<times> 'h world) option" where
  "puts_string env w a args s actuallen buf bufLen =
     (let len = int (str_len s);
          newlen = len + bufLen + 1 in
      if actuallen \<le> newlen then
        (let tmp = (if actuallen < 16 then 32 else actuallen * 2);
             newlen = (if tmp > newlen then tmp else newlen) in
         case make_string env w (newlen + 1) of
           (None, w1) \<Rightarrow> Some (0, w1)
         | (Some new, w1) \<Rightarrow>
             (case memcpy_VSTR w1 new (str_mem s) len of
                None \<Rightarrow> None
              | Some w2 \<Rightarrow>
                  puts_store (store w2 a (OCons new (LInt newlen))) new len buf bufLen))
      else puts_store w args len buf bufLen)"

definition puts_funcall ::
  "'h env \<Rightarrow> 'h world \<Rightarrow> lval \<Rightarrow> puts_data \<Rightarrow> byte list \<Rightarrow> int \<Rightarrow> (int \<times> 'h world) option" where
  "puts_funcall env w stream data buf bufLen =
     (let oldgci = gc_inhibit w in
      case (case data of
              ValString v \<Rightarrow> Some (Some v, w)
            | RawBuf _ \<Rightarrow> string_dupn env w buf bufLen) of
        None \<Rightarrow> None
      | Some (None, w1) \<Rightarrow> None
      | Some (Some args, w1) \<Rightarrow>
          (let r = call_lisp env stream [args] (w1\<lparr>gc_inhibit := True\<rparr>);
               rc = (case fst r of
                       None \<Rightarrow> 0
                     | Some res \<Rightarrow>
                         if \<not> NILP res then (case res of LInt i \<Rightarrow> i | _ \<Rightarrow> bufLen) else 0)
           in Some (rc, (snd r)\<lparr>gc_inhibit := oldgci\<rparr>)))"

definition puts_symbol ::
  "'h env \<Rightarrow> 'h world \<Rightarrow> lval \<Rightarrow> puts_data \<Rightarrow> byte list \<Rightarrow> int \<Rightarrow> (int \<times> 'h world) option" where
  "puts_symbol env w stream data buf bufLen =
     (if stream = sym_t then
        (if WINFF_MESSAGE (curr_win w) then
           (case malloc env w (nat (int (length (w_Message (curr_win w))) + bufLen) + 1) of
              Some junk \<Rightarrow>
                (if 0 \<le> bufLen \<and> nat bufLen \<le> length buf then
                   Some (bufLen,
                         w\<lparr>curr_win := (curr_win w)
                             \<lparr>w_Message := w_Message (curr_win w) @ take (nat bufLen) buf,
                              WINFF_MESSAGE := True, VWFF_FORCE_REFRESH := True\<rparr>\<rparr>)
                 else None)
            | None \<Rightarrow> Some (bufLen, w))
         else Some (bufLen, messagen env buf bufLen w))
      else puts_funcall env w stream data buf bufLen)"

definition puts_cons ::
  "'h env \<Rightarrow> 'h world \<Rightarrow> addr \<Rightarrow> lval \<Rightarrow> lval \<Rightarrow> puts_data \<Rightarrow> byte list \<Rightarrow> int
     \<Rightarrow> (int \<times> 'h world) option" where
  "puts_cons env w a args cdr data buf bufLen =
     (case (VSTRING w args, cdr) of
        (Some s, LInt actuallen) \<Rightarrow>
          (if str_writable s then puts_string env w a args s actuallen buf bufLen
           else if args \<noteq> sym_lambda
           then Some (0, cmd_signal w sym_invalid_stream [LPtr a])
           else puts_symbol env w (LPtr a) data buf bufLen)
      | _ \<Rightarrow>
          (case (args, VTX w args) of
             (LPtr ta, Some tx) \<Rightarrow>
               (case cdr of
                  LPos col row \<Rightarrow> set_VCDR a (pos_puts env w ta (col, row) buf bufLen)
                | _ \<Rightarrow>
                    (let p = cmd_restriction_end env ta w;
                         r = pos_puts env w ta p buf bufLen
                     in Some (fst r, snd (snd r))))
           | _ \<Rightarrow>
               if args \<noteq> sym_lambda
               then Some (0, cmd_signal w sym_invalid_stream [LPtr a])
               else puts_symbol env w (LPtr a) data buf bufLen))"

definition stream_puts ::
  "'h env \<Rightarrow> 'h world \<Rightarrow> lval \<Rightarrow> puts_data \<Rightarrow> int \<Rightarrow> (int \<times> 'h world) option" where
  "stream_puts env w0 stream0 data bufLen0 =
     (case default_stream env sym_standard_output w0 stream0 of
        (None, w) \<Rightarrow> Some (0, w)
      | (Some stream, w) \<Rightarrow>
          (case (case data of
                   ValString v \<Rightarrow> map_option str_mem (VSTRING w v)
                 | RawBuf bs \<Rightarrow> Some bs) of
             None \<Rightarrow> None
           | Some buf \<Rightarrow>
               (case (if bufLen0 = - 1 then
                        (case data of
                           ValString v \<Rightarrow> map_option (\<lambda>s. int (str_len s)) (VSTRING w v)
                         | RawBuf _ \<Rightarrow> strlen buf)
                      else Some bufLen0) of
                  None \<Rightarrow> None
                | Some bufLen \<Rightarrow>
                    (case stream of
                       LSym _ \<Rightarrow> puts_symbol env w stream data buf bufLen
                     | LPtr a \<Rightarrow>
                         (case deref w stream of
                            Some (OFile lf) \<Rightarrow>
                              (if lf_name lf \<noteq> None then
                                 (case lf_file lf of
                                    None \<Rightarrow> None
                                  | Some fh \<Rightarrow>
                                      (if 0 \<le> bufLen \<and> nat bufLen \<le> length buf then
                                         (let r = c_fwrite env (take (nat bufLen) buf) fh (host w)
                                          in Some (fst r, w\<lparr>host := snd r\<rparr>))
                                       else None))
                               else Some (0, w))
                          | Some (OMark mk) \<Rightarrow>
                              (if \<not> MKFF_RESIDENT mk
                               then Some (0, cmd_signal w sym_invalid_stream [stream, non_resident])
                               else set_mk_Pos a (pos_puts env w (mk_tx mk) (mk_Pos mk) buf bufLen))
                          | Some (OBuffer tx) \<Rightarrow>
                              set_tx_cursor a (pos_puts env w a (tx_cursor tx) buf bufLen)
                          | Some (OCons args cdr) \<Rightarrow> puts_cons env w a args cdr data buf bufLen
                          | Some OProcess \<Rightarrow> Some (write_to_process env stream buf bufLen w)
                          | Some (OString _) \<Rightarrow>
                              Some (0, cmd_signal w sym_invalid_stream [stream])
                          | Some OOther \<Rightarrow> Some (0, cmd_signal w sym_invalid_stream [stream])
                          | Some OFree \<Rightarrow> None
                          | None \<Rightarrow> None)
                     | _ \<Rightarrow> Some (0, cmd_signal w sym_invalid_stream [stream])))))"

section \<open>The \<^verbatim>\<open>write\<close> subr\<close>



section \<open>The escape reader\<close>

text \<open>
  \<^verbatim>\<open>toupper\<close> and \<^verbatim>\<open>isxdigit\<close> of the C library, in the C locale.  \<open>u_char\<close> is the
  assignment to the \<^verbatim>\<open>u_char\<close> variable \<^verbatim>\<open>c\<close>, read back as an \<^verbatim>\<open>int\<close>.
\<close>

definition toupper :: "int \<Rightarrow> int" where
  "toupper c = (if 97 \<le> c \<and> c \<le> 122 then c - 32 else c)"

definition isxdigit :: "int \<Rightarrow> bool" where
  "isxdigit c = ((48 \<le> c \<and> c \<le> 57) \<or> (65 \<le> c \<and> c \<le> 70) \<or> (97 \<le> c \<and> c \<le> 102))"

definition u_char :: "int \<Rightarrow> int" where
  "u_char c = uint (word_of_int c :: byte)"

text \<open>The \<^verbatim>\<open>while(1)\<close> loop of the \<^verbatim>\<open>'x'\<close> case; it ends at the first non-hex character.\<close>

partial_function (option) read_esc_hex ::
  "'h env \<Rightarrow> lval \<Rightarrow> int \<Rightarrow> 'h world \<Rightarrow> (int \<times> int \<times> 'h world) option" where
  "read_esc_hex env stream c w =
     (case stream_getc env w stream of
        None \<Rightarrow> None
      | Some r \<Rightarrow>
          if \<not> isxdigit (fst r) then Some (c, fst r, snd r)
          else if 48 \<le> fst r \<and> fst r \<le> 57
          then read_esc_hex env stream (u_char ((c * 16) + (fst r - 48))) (snd r)
          else read_esc_hex env stream (u_char ((c * 16) + (toupper (fst r) - 65) + 10)) (snd r))"

text \<open>
  \<^verbatim>\<open>stream_read_esc(stream, c_p)\<close>: the result is the returned character, the
  character left in \<^verbatim>\<open>*c_p\<close> and the world.
\<close>

definition read_esc_final ::
  "'h env \<Rightarrow> 'h world \<Rightarrow> lval \<Rightarrow> int \<Rightarrow> (int \<times> int \<times> 'h world) option" where
  "read_esc_final env w stream c =
     (case stream_getc env w stream of
        None \<Rightarrow> None
      | Some r \<Rightarrow> Some (c, fst r, snd r))"

definition read_esc_octal ::
  "'h env \<Rightarrow> 'h world \<Rightarrow> lval \<Rightarrow> int \<Rightarrow> (int \<times> int \<times> 'h world) option" where
  "read_esc_octal env w stream c_p =
     (let c = u_char (c_p - 48) in
      case stream_getc env w stream of
        None \<Rightarrow> None
      | Some r1 \<Rightarrow>
          if fst r1 \<ge> 48 \<and> fst r1 \<le> 55 then
            (let c = u_char ((c * 8) + (fst r1 - 48)) in
             case stream_getc env (snd r1) stream of
               None \<Rightarrow> None
             | Some r2 \<Rightarrow>
                 if fst r2 \<ge> 48 \<and> fst r2 \<le> 55 then
                   (let c = u_char ((c * 8) + (fst r2 - 48)) in
                    read_esc_final env (snd r2) stream c)
                 else Some (c, fst r2, snd r2))
          else Some (c, fst r1, snd r1))"

definition stream_read_esc ::
  "'h env \<Rightarrow> 'h world \<Rightarrow> lval \<Rightarrow> int \<Rightarrow> (int \<times> int \<times> 'h world) option" where
  "stream_read_esc env w stream c_p =
     (if c_p = 110 then read_esc_final env w stream 10
      else if c_p = 114 then read_esc_final env w stream 13
      else if c_p = 102 then read_esc_final env w stream 12
      else if c_p = 116 then read_esc_final env w stream 9
      else if c_p = 118 then read_esc_final env w stream 11
      else if c_p = 97 then read_esc_final env w stream 7
      else if c_p = 94 then
        (case stream_getc env w stream of
           None \<Rightarrow> None
         | Some r \<Rightarrow> read_esc_final env (snd r) stream (u_char (toupper (fst r) XOR 64)))
      else if 48 \<le> c_p \<and> c_p \<le> 55 then read_esc_octal env w stream c_p
      else if c_p = 120 then read_esc_hex env stream 0 w
      else read_esc_final env w stream (u_char c_p))"

section \<open>\<^verbatim>\<open>copy-stream\<close>\<close>

definition COPY_BUFSIZ :: int where
  "COPY_BUFSIZ = 512"

text \<open>
  The array \<^verbatim>\<open>buff\<close> is kept as the list of the bytes stored since the last flush, so
  that \<^verbatim>\<open>ptr - buff\<close> is its length; \<^verbatim>\<open>*ptr = 0\<close> puts the terminator behind them.
  \<open>copy_flush\<close> is the code behind the loop.
\<close>

definition copy_flush ::
  "'h env \<Rightarrow> lval \<Rightarrow> 'h world \<Rightarrow> int \<Rightarrow> byte list \<Rightarrow> (lval option \<times> 'h world) option" where
  "copy_flush env dest w len buff =
     (case (if buff \<noteq> []
            then map_option snd (stream_puts env w dest (RawBuf (buff @ [0])) (int (length buff)))
            else Some w) of
        None \<Rightarrow> None
      | Some w1 \<Rightarrow> Some (Some (if len \<noteq> 0 then LInt len else sym_nil), w1))"

partial_function (option) copy_loop ::
  "'h env \<Rightarrow> lval \<Rightarrow> lval \<Rightarrow> 'h world \<Rightarrow> int \<Rightarrow> byte list \<Rightarrow> (lval option \<times> 'h world) option" where
  "copy_loop env source dest w len buff =
     (case stream_getc env w source of
        None \<Rightarrow> None
      | Some r \<Rightarrow>
          if fst r \<noteq> EOF then
            (case (if int (length buff) \<ge> COPY_BUFSIZ - 1 then
                     (case stream_puts env (snd r) dest (RawBuf (buff @ [0])) (int (length buff)) of
                        None \<Rightarrow> None
                      | Some p \<Rightarrow> Some (fst p = EOF, [], snd p))
                   else Some (False, buff @ [word_of_int (fst r)], snd r)) of
               None \<Rightarrow> None
             | Some (brk, buff1, w1) \<Rightarrow>
                 if brk then copy_flush env dest w1 len buff
                 else
                   (let t = test_int env w1 in
                    if fst t then Some (None, snd t)
                    else copy_loop env source dest (snd t) (len + 1) buff1))
          else copy_flush env dest (snd r) len buff)"

definition cmd_copy_stream ::
  "'h env \<Rightarrow> 'h world \<Rightarrow> lval \<Rightarrow> lval \<Rightarrow> (lval option \<times> 'h world) option" where
  "cmd_copy_stream env w source dest = copy_loop env source dest w 0 []"

section \<open>String streams\<close>

definition cmd_make_string_input_stream ::
  "'h env \<Rightarrow> 'h world \<Rightarrow> lval \<Rightarrow> lval \<Rightarrow> lval option \<times> 'h world" where
  "cmd_make_string_input_stream env w string start =
     (if VSTRING w string = None then (None, signal_arg_error w string 1)
      else cmd_cons env w (case start of LInt _ \<Rightarrow> start | _ \<Rightarrow> LInt 0) string)"

definition cmd_make_string_output_stream ::
  "'h env \<Rightarrow> 'h world \<Rightarrow> (lval option \<times> 'h world) option" where
  "cmd_make_string_output_stream env w =
     (case string_dupn env w [] 0 of
        None \<Rightarrow> None
      | Some (None, w1) \<Rightarrow> None
      | Some (Some str, w1) \<Rightarrow> Some (cmd_cons env w1 str (LInt 0)))"

section \<open>The stream predicate\<close>






section \<open>File objects\<close>

text \<open>
  \<^verbatim>\<open>file_sweep\<close> walks the chain it found and relinks the marked cells in front of
  the new chain.
\<close>

fun sweep_loop :: "'h env \<Rightarrow> addr list \<Rightarrow> 'h world \<Rightarrow> 'h world option" where
  "sweep_loop env [] w = Some w"
| "sweep_loop env (lf # nxt) w =
     (case deref w (LPtr lf) of
        Some (OFile f) \<Rightarrow>
          if \<not> GC_CELL_MARKED f then
            (if lf_name f \<noteq> None \<and> \<not> LFF_DONT_CLOSE f then
               (case lf_file f of
                  None \<Rightarrow> None
                | Some fh \<Rightarrow>
                    sweep_loop env nxt (store (w\<lparr>host := c_fclose env fh (host w)\<rparr>) lf OFree))
             else sweep_loop env nxt (store w lf OFree))
          else
            sweep_loop env nxt
              ((store w lf (OFile (f\<lparr>GC_CELL_MARKED := False\<rparr>)))
                 \<lparr>lfile_chain := lf # lfile_chain w\<rparr>)
      | _ \<Rightarrow> None)"

definition file_sweep :: "'h env \<Rightarrow> 'h world \<Rightarrow> 'h world option" where
  "file_sweep env w = sweep_loop env (lfile_chain w) (w\<lparr>lfile_chain := []\<rparr>)"

text \<open>
  \<^verbatim>\<open>cmd_open(name, modes, file)\<close>.  The assignment \<^verbatim>\<open>lf->car = V_File\<close> clears the
  flag bits of the cell.  \<open>c_string\<close> is the C string at the start of a string's
  storage, as \<^verbatim>\<open>fopen\<close> reads it.
\<close>

definition c_string :: "byte list \<Rightarrow> byte list option" where
  "c_string mem = map_option (\<lambda>n. take (nat n) mem) (strlen mem)"

definition open_alloc :: "'h env \<Rightarrow> 'h world \<Rightarrow> lval \<Rightarrow> (addr option \<times> 'h world) option" where
  "open_alloc env w file =
     (case (file, deref w file) of
        (LPtr fa, Some (OFile lf)) \<Rightarrow>
          (if lf_name lf \<noteq> None \<and> \<not> LFF_DONT_CLOSE lf then
             (case lf_file lf of
                None \<Rightarrow> None
              | Some fh \<Rightarrow> Some (Some fa, w\<lparr>host := c_fclose env fh (host w)\<rparr>))
           else Some (Some fa, w))
      | _ \<Rightarrow>
          (if alloc_cell env w then
             Some (Some (length (heap w)),
                   w\<lparr>heap := heap w @
                        [OFile \<lparr>lf_name = None, lf_file = None, LFF_DONT_CLOSE = False,
                                GC_CELL_MARKED = False\<rparr>],
                     lfile_chain := length (heap w) # lfile_chain w\<rparr>)
           else Some (None, w)))"

definition cmd_open ::
  "'h env \<Rightarrow> 'h world \<Rightarrow> lval \<Rightarrow> lval \<Rightarrow> lval \<Rightarrow> (lval option \<times> 'h world) option" where
  "cmd_open env w0 name modes file =
     (case open_alloc env w0 file of
        None \<Rightarrow> None
      | Some (None, w) \<Rightarrow> Some (None, w)
      | Some (Some lf, w) \<Rightarrow>
          (let unbound = \<lparr>lf_name = None, lf_file = None, LFF_DONT_CLOSE = False,
                          GC_CELL_MARKED = False\<rparr>;
               w1 = store w lf (OFile unbound)
           in case (VSTRING w1 name, VSTRING w1 modes) of
                (Some ns, Some ms) \<Rightarrow>
                  (case (c_string (str_mem ns), c_string (str_mem ms)) of
                     (Some path, Some mode) \<Rightarrow>
                       (let r = c_fopen env path mode (host w1);
                            w2 = w1\<lparr>host := snd r\<rparr>
                        in case fst r of
                             Some fh \<Rightarrow>
                               Some (Some (LPtr lf),
                                     (store w2 lf (OFile (unbound\<lparr>lf_file := Some fh,
                                                                   lf_name := Some name\<rparr>)))
                                       \<lparr>host := c_fcntl_setfd env fh (host w2)\<rparr>)
                           | None \<Rightarrow>
                               (let e = lookup_errno env w2
                                in Some (None, cmd_signal (snd e) sym_file_error [fst e, name])))
                   | _ \<Rightarrow> None)
              | _ \<Rightarrow> Some (Some (LPtr lf), w1)))"

section \<open>Observations used in the statements\<close>

text \<open>\<open>n\<close> successive calls of \<^verbatim>\<open>stream_getc\<close> on one stream, with the characters read.\<close>

fun getc_times :: "'h env \<Rightarrow> lval \<Rightarrow> nat \<Rightarrow> 'h world \<Rightarrow> (int list \<times> 'h world) option" where
  "getc_times env stream 0 w = Some ([], w)"
| "getc_times env stream (Suc n) w =
     (case stream_getc env w stream of
        None \<Rightarrow> None
      | Some (c, w1) \<Rightarrow>
          (case getc_times env stream n w1 of
             None \<Rightarrow> None
           | Some (cs, w2) \<Rightarrow> Some (c # cs, w2)))"

text \<open>Writing a sequence of characters with successive calls of \<^verbatim>\<open>stream_putc\<close>.\<close>

fun put_chars :: "'h env \<Rightarrow> lval \<Rightarrow> int list \<Rightarrow> 'h world \<Rightarrow> (int list \<times> 'h world) option" where
  "put_chars env stream [] w = Some ([], w)"
| "put_chars env stream (c # cs) w =
     (case stream_putc env w stream c of
        None \<Rightarrow> None
      | Some (rc, w1) \<Rightarrow>
          (case put_chars env stream cs w1 of
             None \<Rightarrow> None
           | Some (rcs, w2) \<Rightarrow> Some (rc # rcs, w2)))"

text \<open>
  An environment whose collaborators do nothing (every call fails or yields nothing,
  every allocation succeeds, no interrupt is pending), and the world with an empty store.
\<close>

definition null_env :: "unit env" where
  "null_env = \<lparr>cmd_symbol_value = (\<lambda>var no_err w. (None, w)),
           call_lisp = (\<lambda>f args w. (None, w)),
           c_getc = (\<lambda>fh h. (EOF, h)),
           c_ungetc = (\<lambda>c fh h. (EOF, h)),
           c_putc = (\<lambda>c fh h. (EOF, h)),
           c_fwrite = (\<lambda>bs fh h. (0, h)),
           c_fopen = (\<lambda>path mode h. (None, h)),
           c_fclose = (\<lambda>fh h. h),
           c_fcntl_setfd = (\<lambda>fh h. h),
           lookup_errno = (\<lambda>w. (LSym ''No such file or directory'', w)),
           write_to_process = (\<lambda>p bs n w. (0, w)),
           read_only = (\<lambda>tx w. True),
           pad_pos = (\<lambda>tx p w. (False, w)),
           insert_string = (\<lambda>tx bs n p w. (None, w)),
           cmd_restriction_end = (\<lambda>tx w. (0, 0)),
           messagen = (\<lambda>bs n w. w),
           malloc = (\<lambda>w n. Some []),
           alloc_cell = (\<lambda>w. True),
           test_int = (\<lambda>w. (False, w)),
           STRING_LEN_unsigned = False\<rparr>"

definition empty_world :: "unit world" where
  "empty_world = \<lparr>heap = [], lfile_chain = [], signals = [], gc_inhibit = False,
         curr_win = \<lparr>WINFF_MESSAGE = False, w_Message = [], VWFF_FORCE_REFRESH = False\<rparr>,
         host = ()\<rparr>"

text \<open>
  A string object holds the byte sequence \<open>S\<close>: its length field is \<open>|S|\<close>, its first
  \<open>|S|\<close> bytes are \<open>S\<close> and the terminating zero follows them.
\<close>

definition holds_string :: "lisp_string \<Rightarrow> byte list \<Rightarrow> bool" where
  "holds_string s S =
     (str_len s = length S \<and> take (length S) (str_mem s) = S \<and>
      byte_at (str_mem s) (int (length S)) = Some 0)"

text \<open>The least value of the form \<open>max(32, 2^k)\<close> that is greater than \<open>n\<close>.\<close>

definition smallest_capacity :: "int \<Rightarrow> nat \<Rightarrow> bool" where
  "smallest_capacity cap n =
     ((\<exists>k. cap = max 32 (2 ^ k)) \<and> cap > int n \<and>
      (\<forall>k. max 32 (2 ^ k) > int n \<longrightarrow> cap \<le> max 32 (2 ^ k)))"

text \<open>
  The state of an output accumulator at address \<open>a\<close> after the bytes \<open>B\<close>, and the
  capacities the growth rule of \<^verbatim>\<open>stream_putc\<close> can reach after \<open>n\<close> bytes.
\<close>

definition accum :: "'h world \<Rightarrow> addr \<Rightarrow> byte list \<Rightarrow> int \<Rightarrow> bool" where
  "accum w a B cap =
     (\<exists>sa s. deref w (LPtr a) = Some (OCons (LPtr sa) (LInt cap)) \<and>
             deref w (LPtr sa) = Some (OString s) \<and> str_writable s \<and>
             str_len s = length B \<and> take (length B) (str_mem s) = B \<and>
             int (length (str_mem s)) = cap + 1 \<and>
             byte_at (str_mem s) (int (length B)) = Some 0)"

definition cap_inv :: "int \<Rightarrow> nat \<Rightarrow> bool" where
  "cap_inv cap n =
     ((n = 0 \<and> cap = 0) \<or>
      (0 < n \<and> int n < cap \<and> (\<exists>k\<ge>5. cap = 2 ^ k) \<and> (cap = 32 \<or> cap \<le> 2 * int n)))"

text \<open>
  Two small worlds for the concrete instances: a store holding the string \<open>ab\<close> and
  an input stream \<open>(0 . "ab")\<close> on it.
\<close>

definition ab_string :: lisp_string where
  "ab_string = \<lparr>str_mem = [97, 98, 0], str_len = 2, str_writable = True\<rparr>"

definition ab_world :: "unit world" where
  "ab_world = empty_world\<lparr>heap := [OString ab_string, OCons (LInt 0) (LPtr 0)]\<rparr>"

text \<open>A store holding only the string \<open>ab\<close>, and one holding a string with a zero byte inside.\<close>

definition str_world :: "unit world" where
  "str_world = empty_world\<lparr>heap := [OString ab_string]\<rparr>"

definition nul_string :: lisp_string where
  "nul_string = \<lparr>str_mem = [97, 0, 98, 0], str_len = 3, str_writable = True\<rparr>"

definition nul_world :: "unit world" where
  "nul_world = empty_world\<lparr>heap := [OString nul_string]\<rparr>"


text \<open>
  A Lisp in which \<^verbatim>\<open>standard-output\<close> is bound to \<^verbatim>\<open>nil\<close> and in which applying a symbol
  that has no function definition raises \<open>void-function\<close> and yields \<^verbatim>\<open>LISP_NULL\<close>.
\<close>

definition void_function_env :: "unit env" where
  "void_function_env =
     null_env\<lparr>cmd_symbol_value := (\<lambda>var no_err w. (Some sym_nil, w)),
              call_lisp := (\<lambda>f args w. (None, cmd_signal w (LSym ''void-function'') [f]))\<rparr>"







text \<open>
  The stream variants that support unget by moving back: a resident mark, a buffer,
  an input string \<open>(Int . String)\<close> and \<open>(Buffer . Pos)\<close>.  \<open>stream_pos\<close> is the buffer
  and position such a stream reads at (\<open>None\<close> for a string), and \<open>within_line\<close> says
  that the position does not lie behind the terminator slot of its line.
\<close>

definition unget_variant :: "'h world \<Rightarrow> lval \<Rightarrow> bool" where
  "unget_variant w stream =
     (case deref w stream of
        Some (OMark mk) \<Rightarrow> MKFF_RESIDENT mk
      | Some (OBuffer tx) \<Rightarrow> True
      | Some (OCons car cdr) \<Rightarrow>
          (case car of
             LInt i \<Rightarrow> VSTRING w cdr \<noteq> None
           | _ \<Rightarrow> VTX w car \<noteq> None \<and> (case cdr of LPos col row \<Rightarrow> True | _ \<Rightarrow> False))
      | _ \<Rightarrow> False)"

definition stream_pos :: "'h world \<Rightarrow> lval \<Rightarrow> (TX \<times> pos) option" where
  "stream_pos w stream =
     (case deref w stream of
        Some (OMark mk) \<Rightarrow> map_option (\<lambda>tx. (tx, mk_Pos mk)) (VTX w (LPtr (mk_tx mk)))
      | Some (OBuffer tx) \<Rightarrow> Some (tx, tx_cursor tx)
      | Some (OCons car cdr) \<Rightarrow>
          (case cdr of
             LPos col row \<Rightarrow> map_option (\<lambda>tx. (tx, (col, row))) (VTX w car)
           | _ \<Rightarrow> None)
      | _ \<Rightarrow> None)"

definition within_line :: "'h world \<Rightarrow> lval \<Rightarrow> bool" where
  "within_line w stream =
     (case stream_pos w stream of
        None \<Rightarrow> True
      | Some (tx, p) \<Rightarrow>
          (case line_at tx (snd p) of
             Some ln \<Rightarrow> fst p \<le> ln_Strlen ln - 1
           | None \<Rightarrow> False))"

text \<open>
  The conventional C values of the single-letter escapes, and the value of a run of
  hex digits as the \<^verbatim>\<open>u_char\<close> accumulator computes it.
\<close>

definition c_escape_value :: "int \<Rightarrow> int" where
  "c_escape_value c =
     (if c = 110 then 10 else if c = 114 then 13 else if c = 102 then 12
      else if c = 116 then 9 else if c = 118 then 11 else 7)"

definition is_octal :: "int \<Rightarrow> bool" where
  "is_octal c = (48 \<le> c \<and> c \<le> 55)"

definition hex_digit_value :: "int \<Rightarrow> int" where
  "hex_digit_value d = (if 48 \<le> d \<and> d \<le> 57 then d - 48 else toupper d - 65 + 10)"

definition hex_run_value :: "int \<Rightarrow> int list \<Rightarrow> int" where
  "hex_run_value c ds = foldl (\<lambda>c d. u_char (c * 16 + hex_digit_value d)) c ds"

text \<open>
  Worlds holding a string \<open>S\<close> and an input stream on it, at offset \<open>0\<close> or \<open>i\<close>.
\<close>

definition esc_world :: "byte list \<Rightarrow> unit world" where
  "esc_world S =
     empty_world\<lparr>heap := [OString \<lparr>str_mem = S @ [0], str_len = length S, str_writable = True\<rparr>,
                           OCons (LInt 0) (LPtr 0)]\<rparr>"

definition esc_world_at :: "byte list \<Rightarrow> int \<Rightarrow> unit world" where
  "esc_world_at S i =
     empty_world\<lparr>heap := [OString \<lparr>str_mem = S @ [0], str_len = length S, str_writable = True\<rparr>,
                           OCons (LInt i) (LPtr 0)]\<rparr>"

text \<open>
  A fresh output accumulator, a Lisp whose \<^verbatim>\<open>standard-output\<close> is bound to it, and a
  buffer of the two lines \<open>hi\<close> and the empty line with the cursor at the end of the first.
\<close>

definition out_world :: "unit world" where
  "out_world =
     empty_world\<lparr>heap := [OString \<lparr>str_mem = [0], str_len = 0, str_writable = True\<rparr>,
                           OCons (LPtr 0) (LInt 0)]\<rparr>"

definition stdout_env :: "unit env" where
  "stdout_env = null_env\<lparr>cmd_symbol_value := (\<lambda>var no_err w. (Some (LPtr 1), w))\<rparr>"

definition buf_world :: "unit world" where
  "buf_world =
     empty_world\<lparr>heap :=
       [OBuffer \<lparr>tx_Lines = [\<lparr>ln_Line = [104, 105, 0], ln_Strlen = 3\<rparr>,
                              \<lparr>ln_Line = [0], ln_Strlen = 1\<rparr>],
                  tx_LogicalEnd = 2, tx_cursor = (2, 0)\<rparr>]\<rparr>"

text \<open>
  A world for \<^verbatim>\<open>copy-stream\<close>: a source string of 512 bytes, 511 times \<open>a\<close> and then
  \<open>b\<close>, an input stream on it (address 1) and a fresh output accumulator (address 3).
  \<open>dest_payload\<close> reads back the logical-length bytes of an accumulator.
\<close>

definition copy_world :: "unit world" where
  "copy_world =
     empty_world\<lparr>heap :=
       [OString \<lparr>str_mem = replicate 511 97 @ [98, 0], str_len = 512, str_writable = True\<rparr>,
        OCons (LInt 0) (LPtr 0),
        OString \<lparr>str_mem = [0], str_len = 0, str_writable = True\<rparr>,
        OCons (LPtr 2) (LInt 0)]\<rparr>"

definition dest_payload :: "'h world \<Rightarrow> lval \<Rightarrow> byte list option" where
  "dest_payload w stream =
     (case deref w stream of
        Some (OCons str cap) \<Rightarrow> map_option (\<lambda>s. take (str_len s) (str_mem s)) (VSTRING w str)
      | _ \<Rightarrow> None)"

text \<open>
  An unbound file object, the state \<^verbatim>\<open>cmd_open\<close> is in when \<^verbatim>\<open>fopen\<close> has failed on a
  freshly allocated file object, and a world holding the strings \<open>x\<close> and \<open>r\<close>.
\<close>

definition unbound_file :: Lisp_File where
  "unbound_file = \<lparr>lf_name = None, lf_file = None, LFF_DONT_CLOSE = False, GC_CELL_MARKED = False\<rparr>"

definition open_failed :: "'h world \<Rightarrow> 'h \<Rightarrow> 'h world" where
  "open_failed w h =
     w\<lparr>heap := heap w @ [OFile unbound_file],
       lfile_chain := length (heap w) # lfile_chain w, host := h\<rparr>"

definition open_world :: "unit world" where
  "open_world =
     empty_world\<lparr>heap :=
       [OString \<lparr>str_mem = [120, 0], str_len = 1, str_writable = True\<rparr>,
        OString \<lparr>str_mem = [114, 0], str_len = 1, str_writable = True\<rparr>]\<rparr>"




section \<open>Basic facts about the store\<close>

lemma deref_store:
  "deref (store w a ob) (LPtr b) =
     (if b < length (heap w) then (if b = a then Some ob else deref w (LPtr b)) else None)"
  by (simp add: deref_def store_def)

lemma deref_SomeD: "deref w (LPtr a) = Some ob \<Longrightarrow> a < length (heap w) \<and> heap w ! a = ob"
  by (simp add: deref_def split: if_splits)

lemma VSTRING_SomeD: "VSTRING w v = Some s \<Longrightarrow> \<exists>sa. v = LPtr sa \<and> deref w (LPtr sa) = Some (OString s)"
  by (cases v) (auto simp: VSTRING_def deref_def split: option.splits obj.splits if_splits)

lemma NILP_LPtr [simp]: "\<not> NILP (LPtr a)"
  by (simp add: NILP_def sym_nil_def)

lemma default_stream_LPtr [simp]: "default_stream env var w (LPtr a) = (Some (LPtr a), w)"
  by (simp add: default_stream_def)

lemma stream_getc_int_string:
  assumes "deref w (LPtr a) = Some (OCons (LInt i) cdr)"
    and "VSTRING w cdr = Some s"
  shows "stream_getc env w (LPtr a) =
           (case byte_at (str_mem s) i of
              None \<Rightarrow> None
            | Some b \<Rightarrow>
                if b \<noteq> 0 then Some (uint b, store w a (OCons (LInt (i + 1)) cdr))
                else Some (EOF, w))"
  using assms by (simp add: stream_getc_def getc_cons_def)

lemma deref_imm [simp]:
  "deref w (LInt i) = None" "deref w (LSym n) = None" "deref w (LPos c r) = None"
  by (simp_all add: deref_def)

lemma store_same: "deref w (LPtr a) = Some ob \<Longrightarrow> store w a ob = w"
proof -
  assume "deref w (LPtr a) = Some ob"
  then have "ob = heap w ! a" by (simp add: deref_def split: if_splits)
  then show ?thesis by (simp add: store_def)
qed

lemma store_store [simp]: "store (store w a x) a y = store w a y"
  by (simp add: store_def)

lemma VSTRING_store_other:
  "VSTRING w v = Some s \<Longrightarrow> v \<noteq> LPtr a \<Longrightarrow> VSTRING (store w a ob) v = Some s"
  by (cases v) (auto simp: VSTRING_def deref_store split: option.splits obj.splits if_splits dest: deref_SomeD)

lemma cons_not_string:
  "deref w (LPtr a) = Some (OCons x y) \<Longrightarrow> VSTRING w v = Some s \<Longrightarrow> v \<noteq> LPtr a"
  by (auto simp: VSTRING_def)

lemma byte_at_int: "byte_at mem (int k) = (if k < length mem then Some (mem ! k) else None)"
  by (simp add: byte_at_def)

section \<open>Reading from a string\<close>

lemma getc_times_string:
  assumes "deref w (LPtr a) = Some (OCons (LInt (int i)) string)"
    and "VSTRING w string = Some s"
    and "\<forall>j. i \<le> j \<and> j < i + n \<longrightarrow> j < length (str_mem s) \<and> str_mem s ! j \<noteq> 0"
  shows "getc_times env (LPtr a) n w =
           Some (map (\<lambda>j. uint (str_mem s ! j)) [i..<i + n],
                 store w a (OCons (LInt (int (i + n))) string))"
  using assms
proof (induction n arbitrary: i w)
  case 0
  then show ?case by (simp add: store_same)
next
  case (Suc n)
  from Suc.prems(3) have b: "byte_at (str_mem s) (int i) = Some (str_mem s ! i)" "str_mem s ! i \<noteq> 0"
    by (auto simp: byte_at_def)
  let ?w1 = "store w a (OCons (LInt (int i + 1)) string)"
  have g: "stream_getc env w (LPtr a) = Some (uint (str_mem s ! i), ?w1)"
    using Suc.prems(1,2) b by (simp add: stream_getc_int_string)
  have ne: "string \<noteq> LPtr a" using Suc.prems(1,2) by (rule cons_not_string)
  have d1: "deref ?w1 (LPtr a) = Some (OCons (LInt (int (Suc i))) string)"
    using Suc.prems(1) by (auto simp: deref_store dest: deref_SomeD)
  have s1: "VSTRING ?w1 string = Some s"
    using Suc.prems(2) ne by (rule VSTRING_store_other)
  have r: "\<forall>j. Suc i \<le> j \<and> j < Suc i + n \<longrightarrow> j < length (str_mem s) \<and> str_mem s ! j \<noteq> 0"
    using Suc.prems(3) by auto
  have ih: "getc_times env (LPtr a) n ?w1 =
           Some (map (\<lambda>j. uint (str_mem s ! j)) [Suc i..<Suc i + n],
                 store ?w1 a (OCons (LInt (int (Suc i + n))) string))"
    by (rule Suc.IH [OF d1 s1 r])
  have u: "[i..<i + Suc n] = i # [Suc i..<Suc i + n]"
    by (simp add: upt_conv_Cons)
  show ?case
    unfolding u by (simp add: g ih del: upt_Suc)
qed

text \<open>
  C7.  On an input stream \<open>(Int . String)\<close> whose offset lies inside the string's
  storage: if the byte at the offset is zero (as it is at the logical length, where the
  terminator sits), \<^verbatim>\<open>stream_getc\<close> returns \<^verbatim>\<open>EOF\<close> and the whole state, the cons
  included, is unchanged; otherwise it returns that byte and the only change is that
  the car of the cons is the old offset plus one.
\<close>

theorem string_input_getc:
  assumes "deref w (LPtr a) = Some (OCons (LInt i) cdr)"
    and "VSTRING w cdr = Some s"
    and "byte_at (str_mem s) i = Some b"
  shows "(b = 0 \<longrightarrow> stream_getc env w (LPtr a) = Some (EOF, w)) \<and>
         (b \<noteq> 0 \<longrightarrow>
            stream_getc env w (LPtr a) = Some (uint b, store w a (OCons (LInt (i + 1)) cdr)))"
  using assms by (simp add: stream_getc_int_string)

theorem string_input_getc_witness:
  "deref ab_world (LPtr 1) = Some (OCons (LInt 0) (LPtr 0)) \<and>
   VSTRING ab_world (LPtr 0) = Some ab_string \<and>
   byte_at (str_mem ab_string) 0 = Some 97 \<and>
   stream_getc null_env ab_world (LPtr 1) = Some (97, store ab_world 1 (OCons (LInt 1) (LPtr 0)))"
proof -
  have h1: "deref ab_world (LPtr 1) = Some (OCons (LInt 0) (LPtr 0))"
    by (simp add: deref_def ab_world_def)
  have h2: "VSTRING ab_world (LPtr 0) = Some ab_string"
    by (simp add: VSTRING_def deref_def ab_world_def)
  have h3: "byte_at (str_mem ab_string) 0 = Some 97"
    by (simp add: byte_at_def ab_string_def)
  from string_input_getc [OF h1 h2 h3, of null_env] show ?thesis
    using h1 h2 h3 by simp
qed

text \<open>
  C3 (amended).  For every string \<open>S\<close> that contains no zero byte,
  \<^verbatim>\<open>make-string-input-stream\<close> on \<open>S\<close> gives a stream \<open>(0 . S)\<close> on which \<open>|S|\<close>
  successive reads yield exactly the bytes of \<open>S\<close> in order; the next read yields
  \<^verbatim>\<open>EOF\<close>, and the offset stored in the stream is \<open>|S|\<close> then.
\<close>

theorem string_input_exhaustion:
  assumes "VSTRING w string = Some s" and "holds_string s S" and "0 \<notin> set S"
    and "alloc_cell env w"
  shows "cmd_make_string_input_stream env w string sym_nil =
           (Some (LPtr (length (heap w))), w\<lparr>heap := heap w @ [OCons (LInt 0) string]\<rparr>) \<and>
         getc_times env (LPtr (length (heap w))) (length S)
             (w\<lparr>heap := heap w @ [OCons (LInt 0) string]\<rparr>) =
           Some (map uint S, w\<lparr>heap := heap w @ [OCons (LInt (int (length S))) string]\<rparr>) \<and>
         stream_getc env (w\<lparr>heap := heap w @ [OCons (LInt (int (length S))) string]\<rparr>)
             (LPtr (length (heap w))) =
           Some (EOF, w\<lparr>heap := heap w @ [OCons (LInt (int (length S))) string]\<rparr>)"
proof -
  let ?a = "length (heap w)"
  let ?w1 = "w\<lparr>heap := heap w @ [OCons (LInt 0) string]\<rparr>"
  let ?w2 = "w\<lparr>heap := heap w @ [OCons (LInt (int (length S))) string]\<rparr>"
  obtain sa where sa: "string = LPtr sa" "deref w (LPtr sa) = Some (OString s)"
    using assms(1) by (auto dest: VSTRING_SomeD)
  then have lt: "sa < ?a" by (auto dest: deref_SomeD)
  have mk: "cmd_make_string_input_stream env w string sym_nil = (Some (LPtr ?a), ?w1)"
    using assms(1,4) by (simp add: cmd_make_string_input_stream_def cmd_cons_def sym_nil_def)
  have d1: "deref ?w1 (LPtr ?a) = Some (OCons (LInt (int 0)) string)"
    by (simp add: deref_def)
  have v1: "VSTRING ?w1 string = Some s"
    using sa lt by (simp add: VSTRING_def deref_def nth_append split: if_splits)
  have v2: "VSTRING ?w2 string = Some s"
    using sa lt by (simp add: VSTRING_def deref_def nth_append split: if_splits)
  have len: "length S < length (str_mem s)" "str_mem s ! length S = 0"
    using assms(2) by (auto simp: holds_string_def byte_at_def split: if_splits)
  have e: "str_mem s ! j = S ! j" if "j < length S" for j
  proof -
    have "S ! j = take (length S) (str_mem s) ! j" using assms(2) by (simp add: holds_string_def)
    then show ?thesis using that by simp
  qed
  have nz: "\<forall>j. 0 \<le> j \<and> j < 0 + length S \<longrightarrow> j < length (str_mem s) \<and> str_mem s ! j \<noteq> 0"
  proof (intro allI impI)
    fix j assume j: "0 \<le> j \<and> j < 0 + length S"
    have "S ! j \<in> set S" using j by simp
    then have "S ! j \<noteq> 0" using assms(3) by metis
    then show "j < length (str_mem s) \<and> str_mem s ! j \<noteq> 0" using e j len by simp
  qed
  have m: "map (\<lambda>j. uint (str_mem s ! j)) [0..<0 + length S] = map uint S"
    by (rule nth_equalityI) (simp_all add: e)
  have st: "store ?w1 ?a (OCons (LInt (int (0 + length S))) string) = ?w2"
    by (simp add: store_def)
  have rd: "getc_times env (LPtr ?a) (length S) ?w1 = Some (map uint S, ?w2)"
    using getc_times_string [OF d1 v1 nz, of env] m st by simp
  have d2: "deref ?w2 (LPtr ?a) = Some (OCons (LInt (int (length S))) string)"
    by (simp add: deref_def)
  have "stream_getc env ?w2 (LPtr ?a) = Some (EOF, ?w2)"
    using len by (simp add: stream_getc_int_string [OF d2 v2] byte_at_int)
  then show ?thesis using mk rd by simp
qed

theorem string_input_exhaustion_witness:
  "VSTRING str_world (LPtr 0) = Some ab_string \<and> holds_string ab_string [97, 98] \<and>
   0 \<notin> set [97, 98 :: byte] \<and> alloc_cell null_env str_world \<and>
   getc_times null_env (LPtr (length (heap str_world))) (length [97, 98 :: byte])
       (str_world\<lparr>heap := heap str_world @ [OCons (LInt 0) (LPtr 0)]\<rparr>) =
     Some (map uint [97, 98 :: byte],
           str_world\<lparr>heap := heap str_world @
              [OCons (LInt (int (length [97, 98 :: byte]))) (LPtr 0)]\<rparr>)"
proof -
  have h1: "VSTRING str_world (LPtr 0) = Some ab_string"
    by (simp add: VSTRING_def deref_def str_world_def)
  have h2: "holds_string ab_string [97, 98]"
    by (simp add: holds_string_def ab_string_def byte_at_def)
  have h3: "0 \<notin> set [97, 98 :: byte]" by simp
  have h4: "alloc_cell null_env str_world" by (simp add: null_env_def)
  from string_input_exhaustion [OF h1 h2 h3 h4] h1 h2 h3 h4 show ?thesis
    by blast
qed

text \<open>
  The claim as stated fails on a string with a zero byte inside: of \<open>a\<close>, \<open>NUL\<close>, \<open>b\<close>
  only \<open>a\<close> is read, every later read is \<^verbatim>\<open>EOF\<close>.
\<close>

theorem string_input_exhaustion_counterexample:
  "holds_string nul_string [97, 0, 98] \<and>
   (case cmd_make_string_input_stream null_env nul_world (LPtr 0) sym_nil of
      (Some strm, w1) \<Rightarrow> map_option fst (getc_times null_env strm 3 w1)
    | (None, w1) \<Rightarrow> None) = Some [97, EOF, EOF] \<and>
   [97, EOF, EOF] \<noteq> map uint [97, 0, 98 :: byte]"
  by (simp add: holds_string_def nul_string_def byte_at_def cmd_make_string_input_stream_def
      VSTRING_def deref_def nul_world_def cmd_cons_def null_env_def empty_world_def
      numeral_3_eq_3 stream_getc_def getc_cons_def store_def EOF_def sym_nil_def)

section \<open>Writing to a string accumulator\<close>

lemma cap_inv_step:
  assumes "cap_inv cap n"
  shows "cap_inv (if int n + 1 \<ge> cap then (if cap < 16 then 32 else cap * 2) else cap) (Suc n)"
proof (cases "n = 0")
  case True
  then have "cap = 0" using assms by (simp add: cap_inv_def)
  moreover have "\<exists>k\<ge>5. (32::int) = 2 ^ k" by (rule exI [of _ 5]) simp
  ultimately show ?thesis using True by (simp add: cap_inv_def)
next
  case False
  then have "0 < n \<and> int n < cap \<and> (\<exists>k\<ge>5. cap = 2 ^ k) \<and> (cap = 32 \<or> cap \<le> 2 * int n)"
    using assms unfolding cap_inv_def by blast
  then obtain k where k: "k \<ge> 5" "cap = 2 ^ k" and lt: "int n < cap"
    and sm: "cap = 32 \<or> cap \<le> 2 * int n"
    by blast
  have "(2::int) ^ 5 \<le> 2 ^ k" using k(1) by (intro power_increasing) simp_all
  then have big: "cap \<ge> 32" using k(2) by simp
  show ?thesis
  proof (cases "int n + 1 \<ge> cap")
    case True
    then have eq: "cap = int n + 1" using lt by simp
    have "cap * 2 = 2 ^ (Suc k)" using k(2) by simp
    then have "\<exists>j\<ge>5. cap * 2 = 2 ^ j" using k(1) by (intro exI [of _ "Suc k"]) simp
    then show ?thesis using True big eq by (simp add: cap_inv_def)
  next
    case False
    then show ?thesis using k sm lt by (auto simp: cap_inv_def)
  qed
qed

lemma cap_inv_smallest:
  assumes "cap_inv cap n" and "0 < n"
  shows "smallest_capacity cap n"
proof -
  from assms have "0 < n \<and> int n < cap \<and> (\<exists>k\<ge>5. cap = 2 ^ k) \<and> (cap = 32 \<or> cap \<le> 2 * int n)"
    unfolding cap_inv_def by blast
  then obtain k where k: "k \<ge> 5" "cap = 2 ^ k" and lt: "int n < cap"
    and sm: "cap = 32 \<or> cap \<le> 2 * int n"
    by blast
  have "(2::int) ^ 5 \<le> 2 ^ k" using k(1) by (intro power_increasing) simp_all
  then have big: "cap \<ge> 32" using k(2) by simp
  have form: "cap = max 32 (2 ^ k)" using big k(2) by simp
  have least: "cap \<le> max 32 (2 ^ j)" if gt: "max 32 (2 ^ j) > int n" for j :: nat
  proof (rule ccontr)
    assume "\<not> cap \<le> max 32 (2 ^ j)"
    then have c: "32 < cap" "2 ^ j < cap" by (auto simp: not_le)
    then have "cap \<noteq> 32" by auto
    then have le: "cap \<le> 2 * int n" using sm by simp
    from c(2) have "(2::int) ^ j < 2 ^ k" using k(2) by simp
    then have "j < k" by (simp add: power_strict_increasing_iff)
    then have "Suc j \<le> k" by simp
    then have "(2::int) ^ Suc j \<le> 2 ^ k" by (intro power_increasing) simp_all
    then have p1: "2 * (2::int) ^ j \<le> cap" using k(2) by simp
    have a: "(2::int) ^ j \<le> int n" using p1 le by linarith
    from c(1) have "(2::int) ^ 5 < 2 ^ k" using k(2) by simp
    then have "5 < k" by (simp only: power_strict_increasing_iff)
    then have "Suc 5 \<le> k" by simp
    then have "(2::int) ^ Suc 5 \<le> 2 ^ k" by (intro power_increasing) simp_all
    then have p2: "(64::int) \<le> cap" using k(2) by simp
    have b: "(32::int) \<le> int n" using p2 le by linarith
    from a b have "max 32 (2 ^ j) \<le> int n" by (simp only: max.bounded_iff)
    then show False using gt by linarith
  qed
  show ?thesis unfolding smallest_capacity_def using form lt least by blast
qed

lemma take_Suc_update2:
  assumes "Suc n < length mem"
  shows "take (Suc n) (mem[n := b, Suc n := z]) = take n mem @ [b]"
  using assms by (simp add: take_Suc_conv_app_nth nth_list_update)

lemma putc_store_ok:
  assumes "deref w (LPtr sa) = Some (OString s)"
    and "int n + 1 < int (length (str_mem s))"
  shows "putc_store w (LPtr sa) (int n) (uint b) =
           Some (1, store w sa (OString (s\<lparr>str_mem := (str_mem s)[n := b, Suc n := 0],
                                            str_len := Suc n\<rparr>)))"
  using assms by (simp add: putc_store_def VSTRING_def poke_def nat_add_distrib)

lemma accum_after_store:
  assumes "deref w (LPtr a) = Some (OCons (LPtr sa) (LInt cap))"
    and "deref w (LPtr sa) = Some (OString s0)"
    and "str_writable s" and "str_len s = Suc n" and "take n (str_mem s) = B" "length B = n"
    and "str_mem s ! n = b" "str_mem s ! Suc n = 0" "int (length (str_mem s)) = cap + 1"
    and "int (Suc n) < cap + 1"
  shows "accum (store w sa (OString s)) a (B @ [b]) cap"
proof -
  have ne: "sa \<noteq> a" using assms(1,2) by auto
  have la: "a < length (heap w)" "sa < length (heap w)"
    using assms(1,2) by (auto dest: deref_SomeD)
  have n: "Suc n < length (str_mem s)" using assms(9,10) by linarith
  have t: "take (Suc n) (str_mem s) = B @ [b]"
    using n assms(5,7) by (simp add: take_Suc_conv_app_nth)
  show ?thesis
    unfolding accum_def
    apply (rule exI [of _ sa], rule exI [of _ s])
    using assms ne la n t by (simp add: deref_store byte_at_int del: of_nat_Suc)
qed

lemma putc_accum_step:
  assumes acc: "accum w a B cap" and ci: "cap_inv cap (length B)"
    and mal: "\<forall>w n. malloc env w n \<noteq> None"
  shows "\<exists>w'. stream_putc env w (LPtr a) (uint b) = Some (1, w') \<and>
              accum w' a (B @ [b])
                (if int (length B) + 1 \<ge> cap then (if cap < 16 then 32 else cap * 2) else cap)"
proof -
  let ?n = "length B"
  from acc obtain sa s where
    da: "deref w (LPtr a) = Some (OCons (LPtr sa) (LInt cap))" and
    ds: "deref w (LPtr sa) = Some (OString s)" and
    wr: "str_writable s" and ln: "str_len s = ?n" and tk: "take ?n (str_mem s) = B" and
    sz: "int (length (str_mem s)) = cap + 1" and z: "byte_at (str_mem s) (int ?n) = Some 0"
    unfolding accum_def by blast
  have ncap: "int ?n \<le> cap" "0 \<le> cap" using ci unfolding cap_inv_def by auto
  have vs: "VSTRING w (LPtr sa) = Some s" using ds by (simp add: VSTRING_def)
  have p: "stream_putc env w (LPtr a) (uint b) = putc_string env w a (LPtr sa) s cap (uint b)"
    using da vs wr by (simp add: stream_putc_def putc_cons_def)
  show ?thesis
  proof (cases "int ?n + 1 \<ge> cap")
    case False
    then have lt: "int ?n + 1 < int (length (str_mem s))" using sz by simp
    let ?s' = "s\<lparr>str_mem := (str_mem s)[?n := b, Suc ?n := 0], str_len := Suc ?n\<rparr>"
    have "putc_string env w a (LPtr sa) s cap (uint b) = Some (1, store w sa (OString ?s'))"
      using False ln putc_store_ok [OF ds lt] by (simp add: putc_string_def)
    moreover have "accum (store w sa (OString ?s')) a (B @ [b]) cap"
      apply (rule accum_after_store [OF da ds, where n = ?n])
      using wr tk lt sz False by (simp_all add: nth_list_update)
    ultimately show ?thesis using p False by auto
  next
    case True
    define newlen where "newlen = (if cap < 16 then 32 else cap * 2)"
    have nl: "int ?n + 1 < newlen" "0 \<le> newlen" "cap \<le> newlen"
      using ncap True by (auto simp: newlen_def)
    obtain junk where j: "malloc env w (nat (newlen + 1)) = Some junk"
      using mal by (metis option.exhaust)
    define mem0 where "mem0 = take (nat (newlen + 1)) (junk @ replicate (nat (newlen + 1)) 0)"
    have l0: "int (length mem0) = newlen + 1" using nl by (simp add: mem0_def)
    define ns where "ns = \<lparr>str_mem = mem0, str_len = nat (newlen + 1) - 1, str_writable = True\<rparr>"
    define na where "na = length (heap w)"
    define w1 where "w1 = w\<lparr>heap := heap w @ [OString ns]\<rparr>"
    have ms: "make_string env w (newlen + 1) = (Some (LPtr na), w1)"
      using nl j by (simp add: make_string_def ns_def mem0_def na_def w1_def)
    have la: "a < length (heap w)" "sa < length (heap w)" "sa \<noteq> a"
      using da ds by (auto dest: deref_SomeD)
    have d1: "deref w1 (LPtr na) = Some (OString ns)"
      by (simp add: deref_def w1_def na_def)
    define mem1 where "mem1 = take ?n (str_mem s) @ drop ?n mem0"
    have l1: "length mem1 = length mem0"
      using ncap nl l0 sz by (auto simp: mem1_def)
    have mc: "memcpy mem0 0 (str_mem s) (int ?n) = Some mem1"
      using ncap nl l0 sz by (auto simp: memcpy_def mem1_def)
    define w2 where "w2 = store w1 na (OString (ns\<lparr>str_mem := mem1\<rparr>))"
    have mv: "memcpy_VSTR w1 (LPtr na) (str_mem s) (int ?n) = Some w2"
      using d1 mc by (simp add: memcpy_VSTR_def VSTRING_def ns_def w2_def)
    define w3 where "w3 = store w2 a (OCons (LPtr na) (LInt newlen))"
    have d3: "deref w3 (LPtr na) = Some (OString (ns\<lparr>str_mem := mem1\<rparr>))"
      using la by (simp add: w3_def w2_def w1_def deref_store na_def store_def deref_def nth_append)
    have d3a: "deref w3 (LPtr a) = Some (OCons (LPtr na) (LInt newlen))"
      using la by (simp add: w3_def w2_def w1_def deref_store na_def store_def deref_def nth_append)
    have lt: "int ?n + 1 < int (length (str_mem (ns\<lparr>str_mem := mem1\<rparr>)))"
      using nl l0 l1 by simp
    let ?s' = "ns\<lparr>str_mem := mem1[?n := b, Suc ?n := 0], str_len := Suc ?n\<rparr>"
    have ps: "putc_store w3 (LPtr na) (int ?n) (uint b) = Some (1, store w3 na (OString ?s'))"
      using putc_store_ok [OF d3 lt] by simp
    have pf: "putc_string env w a (LPtr sa) s cap (uint b) = Some (1, store w3 na (OString ?s'))"
      using True ln ms mv ps by (simp add: putc_string_def newlen_def [symmetric] w3_def)
    have tk1: "take ?n mem1 = B" using tk ncap sz by (simp add: mem1_def) 
    have "accum (store w3 na (OString ?s')) a (B @ [b]) newlen"
      apply (rule accum_after_store [OF d3a d3, where n = ?n])
      using nl l0 l1 tk1 by (simp_all add: nth_list_update ns_def)
    then show ?thesis using p pf True by (auto simp: newlen_def)
  qed
qed

lemma put_chars_accum:
  assumes "accum w a B cap" and "cap_inv cap (length B)" and "\<forall>w n. malloc env w n \<noteq> None"
  shows "\<exists>w' cap'. put_chars env (LPtr a) (map uint C) w = Some (replicate (length C) 1, w') \<and>
           accum w' a (B @ C) cap' \<and> cap_inv cap' (length (B @ C))"
  using assms
proof (induction C arbitrary: w B cap)
  case Nil
  then show ?case by auto
next
  case (Cons b C)
  let ?cap1 = "if int (length B) + 1 \<ge> cap then (if cap < 16 then 32 else cap * 2) else cap"
  from putc_accum_step [OF Cons.prems(1,2,3), of b] obtain w1 where
    s: "stream_putc env w (LPtr a) (uint b) = Some (1, w1)" and a1: "accum w1 a (B @ [b]) ?cap1"
    by blast
  have c1: "cap_inv ?cap1 (length (B @ [b]))"
    using cap_inv_step [OF Cons.prems(2)] by simp
  from Cons.IH [OF a1 c1 Cons.prems(3)] obtain w' cap' where
    "put_chars env (LPtr a) (map uint C) w1 = Some (replicate (length C) 1, w')"
    "accum w' a ((B @ [b]) @ C) cap'" "cap_inv cap' (length ((B @ [b]) @ C))"
    by blast
  then show ?case using s by auto
qed

text \<open>
  C2 (amended).  Starting from the fresh accumulator \<open>("" . 0)\<close> of
  \<^verbatim>\<open>make-string-output-stream\<close>, and as long as no allocation fails, writing any byte
  sequence \<open>B\<close> one byte at a time with \<^verbatim>\<open>stream_putc\<close> succeeds on every byte and
  leaves a payload string of logical length \<open>|B|\<close> whose first \<open>|B|\<close> bytes are
  exactly \<open>B\<close>, with a zero byte behind them.  The recorded capacity is \<open>0\<close> when \<open>B\<close>
  is empty, and otherwise the smallest value of the form \<open>max(32, 2^k)\<close> that is
  greater than \<open>|B|\<close>.
\<close>

theorem string_output_round_trip:
  assumes "\<forall>w n. malloc env w n \<noteq> None" and "\<forall>w. alloc_cell env w"
  shows "\<exists>strm w1. cmd_make_string_output_stream env w = Some (Some strm, w1) \<and>
           (\<exists>w2 str s cap.
              put_chars env strm (map uint B) w1 = Some (replicate (length B) 1, w2) \<and>
              deref w2 strm = Some (OCons str (LInt cap)) \<and> VSTRING w2 str = Some s \<and>
              holds_string s B \<and>
              (B \<noteq> [] \<longrightarrow> smallest_capacity cap (length B)) \<and> (B = [] \<longrightarrow> cap = 0))"
proof -
  obtain junk where j: "malloc env w (Suc 0) = Some junk"
    using assms(1) by (metis option.exhaust)
  define s0 where "s0 = \<lparr>str_mem = [0::byte], str_len = 0, str_writable = True\<rparr>"
  define w1 where "w1 = w\<lparr>heap := heap w @ [OString s0, OCons (LPtr (length (heap w))) (LInt 0)]\<rparr>"
  define a where "a = Suc (length (heap w))"
  have mk: "cmd_make_string_output_stream env w = Some (Some (LPtr a), w1)"
    using j assms(2)
    by (simp add: cmd_make_string_output_stream_def string_dupn_def cmd_cons_def w1_def a_def s0_def)
  have acc: "accum w1 a [] 0"
    unfolding accum_def
    apply (rule exI [of _ "length (heap w)"], rule exI [of _ s0])
    by (simp add: w1_def a_def deref_def nth_append s0_def byte_at_def)
  have ci: "cap_inv 0 (length ([]::byte list))" by (simp add: cap_inv_def)
  from put_chars_accum [OF acc ci assms(1), of B] obtain w2 cap where
    p: "put_chars env (LPtr a) (map uint B) w1 = Some (replicate (length B) 1, w2)" and
    a2: "accum w2 a B cap" and c2: "cap_inv cap (length B)"
    by auto
  from a2 obtain sa s where
    d: "deref w2 (LPtr a) = Some (OCons (LPtr sa) (LInt cap))" "deref w2 (LPtr sa) = Some (OString s)"
    and h: "str_len s = length B" "take (length B) (str_mem s) = B"
      "byte_at (str_mem s) (int (length B)) = Some 0"
    unfolding accum_def by blast
  have v: "VSTRING w2 (LPtr sa) = Some s" using d(2) by (simp add: VSTRING_def)
  have hs: "holds_string s B" using h by (simp add: holds_string_def)
  have sm: "B \<noteq> [] \<longrightarrow> smallest_capacity cap (length B)"
    using cap_inv_smallest [OF c2] by simp
  have z: "B = [] \<longrightarrow> cap = 0" using c2 by (auto simp: cap_inv_def)
  show ?thesis using mk p d(1) v hs sm z by blast
qed

theorem string_output_round_trip_witness:
  "(\<forall>w n. malloc null_env w n \<noteq> None) \<and> (\<forall>w. alloc_cell null_env w) \<and>
   (\<exists>strm w1. cmd_make_string_output_stream null_env empty_world = Some (Some strm, w1) \<and>
      (\<exists>w2 str s cap.
         put_chars null_env strm (map uint [104, 105 :: byte]) w1 =
           Some (replicate (length [104, 105 :: byte]) 1, w2) \<and>
         deref w2 strm = Some (OCons str (LInt cap)) \<and> VSTRING w2 str = Some s \<and>
         holds_string s [104, 105] \<and> smallest_capacity cap (length [104, 105 :: byte])))"
proof -
  have m: "\<forall>w n. malloc null_env w n \<noteq> None" by (simp add: null_env_def)
  have c: "\<forall>w. alloc_cell null_env w" by (simp add: null_env_def)
  have n: "[104, 105 :: byte] \<noteq> []" by simp
  from string_output_round_trip [OF m c, of empty_world "[104, 105]"] n m c
  show ?thesis by blast
qed

text \<open>
  The claim as stated fails for the empty sequence: the capacity of the fresh
  accumulator is \<open>0\<close>, which is not greater than \<open>|B| = 0\<close>.
\<close>

theorem string_output_capacity_counterexample:
  "(case cmd_make_string_output_stream null_env empty_world of
      Some (Some strm, w1) \<Rightarrow>
        (case put_chars null_env strm (map uint ([] :: byte list)) w1 of
           Some (rcs, w2) \<Rightarrow> deref w2 strm
         | None \<Rightarrow> None)
    | _ \<Rightarrow> None) = Some (OCons (LPtr 0) (LInt 0)) \<and>
   \<not> smallest_capacity 0 (length ([] :: byte list))"
  by (simp add: cmd_make_string_output_stream_def string_dupn_def cmd_cons_def null_env_def
      empty_world_def deref_def smallest_capacity_def)

section \<open>Unget and unknown stream types\<close>

lemma signals_store [simp]: "signals (store w a ob) = signals w"
  by (simp add: store_def)













section \<open>The default stream\<close>

text \<open>
  C4 (amended).  When the stream argument is \<^verbatim>\<open>nil\<close> and the lookup of
  \<^verbatim>\<open>standard-output\<close> yields \<^verbatim>\<open>LISP_NULL\<close>, \<^verbatim>\<open>stream_putc\<close> returns \<open>0\<close> and does
  nothing beyond that lookup; symmetrically \<^verbatim>\<open>stream_getc\<close> returns \<^verbatim>\<open>EOF\<close> when
  the lookup of \<^verbatim>\<open>standard-input\<close> yields \<^verbatim>\<open>LISP_NULL\<close>.  When \<^verbatim>\<open>standard-output\<close>
  is bound to a stream \<open>S\<close>, writing to \<^verbatim>\<open>nil\<close> is writing to \<open>S\<close>.  When it is bound
  to the symbol \<^verbatim>\<open>nil\<close>, that symbol is dispatched like any other symbol: it is
  applied to the character as a function.
\<close>

theorem default_stream_fallback:
  "(cmd_symbol_value env sym_standard_output sym_nil w = (None, w1) \<longrightarrow>
      stream_putc env w sym_nil c = Some (0, w1)) \<and>
   (cmd_symbol_value env sym_standard_input sym_nil w = (None, w1) \<longrightarrow>
      stream_getc env w sym_nil = Some (EOF, w1)) \<and>
   (cmd_symbol_value env sym_standard_output sym_nil w = (Some S, w1) \<and> S \<noteq> sym_nil \<longrightarrow>
      stream_putc env w sym_nil c = stream_putc env w1 S c) \<and>
   (cmd_symbol_value env sym_standard_output sym_nil w = (Some sym_nil, w1) \<longrightarrow>
      stream_putc env w sym_nil c = Some (putc_funcall env w1 sym_nil c))"
  by (simp add: stream_putc_def stream_getc_def default_stream_def NILP_def putc_symbol_def
      sym_nil_def sym_t_def)

theorem default_stream_fallback_witness:
  "cmd_symbol_value null_env sym_standard_output sym_nil empty_world = (None, empty_world) \<and>
   stream_putc null_env empty_world sym_nil 65 = Some (0, empty_world) \<and>
   cmd_symbol_value null_env sym_standard_input sym_nil empty_world = (None, empty_world) \<and>
   stream_getc null_env empty_world sym_nil = Some (EOF, empty_world) \<and>
   cmd_symbol_value stdout_env sym_standard_output sym_nil out_world = (Some (LPtr 1), out_world) \<and>
   LPtr 1 \<noteq> sym_nil \<and>
   stream_putc stdout_env out_world sym_nil 65 = stream_putc stdout_env out_world (LPtr 1) 65 \<and>
   cmd_symbol_value void_function_env sym_standard_output sym_nil empty_world =
     (Some sym_nil, empty_world) \<and>
   stream_putc void_function_env empty_world sym_nil 65 =
     Some (putc_funcall void_function_env empty_world sym_nil 65)"
proof -
  have h1: "cmd_symbol_value null_env sym_standard_output sym_nil empty_world = (None, empty_world)"
    and h2: "cmd_symbol_value null_env sym_standard_input sym_nil empty_world = (None, empty_world)"
    by (simp_all add: null_env_def)
  have h3: "cmd_symbol_value stdout_env sym_standard_output sym_nil out_world =
      (Some (LPtr 1), out_world)"
    by (simp add: stdout_env_def)
  have h4: "LPtr 1 \<noteq> sym_nil" by (simp add: sym_nil_def)
  have h5: "cmd_symbol_value void_function_env sym_standard_output sym_nil empty_world =
      (Some sym_nil, empty_world)"
    by (simp add: void_function_env_def)
  from default_stream_fallback [of null_env empty_world empty_world 65]
    default_stream_fallback [of stdout_env out_world out_world 65 "LPtr 1"]
    default_stream_fallback [of void_function_env empty_world empty_world 65]
  show ?thesis using h1 h2 h3 h4 h5 by blast
qed

text \<open>
  The claim as stated fails when \<^verbatim>\<open>standard-output\<close> is bound to \<^verbatim>\<open>nil\<close>: the symbol
  is applied as a function, and the application raises a condition.
\<close>

theorem default_stream_fallback_counterexample:
  "cmd_symbol_value void_function_env sym_standard_output sym_nil empty_world =
     (Some sym_nil, empty_world) \<and>
   stream_putc void_function_env empty_world sym_nil 65 =
     Some (0, cmd_signal empty_world (LSym ''void-function'') [sym_nil]) \<and>
   signals (cmd_signal empty_world (LSym ''void-function'') [sym_nil]) \<noteq> signals empty_world"
  by (simp add: void_function_env_def stream_putc_def default_stream_def NILP_def putc_symbol_def
      putc_funcall_def sym_nil_def sym_t_def cmd_signal_def empty_world_def null_env_def)

section \<open>Unget after a read\<close>

lemma pos_unget_getc:
  assumes "pos_getc tx p = Some (c, p1)" and "c \<noteq> EOF"
  shows "\<exists>p2. POS_UNGETC p1 (Some tx) = Some p2 \<and> pos_getc tx p2 = Some (c, p1) \<and>
              ((case line_at tx (snd p) of Some ln \<Rightarrow> fst p \<le> ln_Strlen ln - 1 | None \<Rightarrow> False)
                 \<longrightarrow> p2 = p)"
proof (cases p)
  case (Pair col row)
  show ?thesis
  proof (cases "line_at tx row")
    case None
    then show ?thesis using assms Pair by (auto simp: pos_getc_def Let_def split: if_splits)
  next
    case (Some ln)
    show ?thesis
    proof (cases "col \<ge> ln_Strlen ln - 1")
      case True
      then have r: "row < tx_LogicalEnd tx" "row + 1 \<noteq> tx_LogicalEnd tx" "c = 10" "p1 = (0, row + 1)"
        using assms Pair Some by (auto simp: pos_getc_def Let_def split: if_splits)
      have u: "POS_UNGETC p1 (Some tx) = Some (ln_Strlen ln - 1, row)"
        using r Some by (simp add: POS_UNGETC_def Let_def)
      have g: "pos_getc tx (ln_Strlen ln - 1, row) = Some (c, p1)"
        using r Some by (simp add: pos_getc_def Let_def)
      show ?thesis using u g Pair Some True by auto
    next
      case False
      then obtain b where b: "byte_at (ln_Line ln) col = Some b" "c = uint b" "p1 = (col + 1, row)"
        and r: "row < tx_LogicalEnd tx"
        using assms Pair Some by (auto simp: pos_getc_def Let_def split: if_splits option.splits)
      have c0: "0 \<le> col" using b(1) by (simp add: byte_at_def split: if_splits)
      have u: "POS_UNGETC p1 (Some tx) = Some (col, row)"
        using b c0 by (simp add: POS_UNGETC_def Let_def)
      have g: "pos_getc tx (col, row) = Some (c, p1)"
        using assms Pair by simp
      show ?thesis using u g Pair by auto
    qed
  qed
qed

lemma line_at_cursor [simp]: "line_at (tx\<lparr>tx_cursor := x\<rparr>) r = line_at tx r"
  by (simp add: line_at_def)

lemma pos_getc_cursor [simp]: "pos_getc (tx\<lparr>tx_cursor := x\<rparr>) p = pos_getc tx p"
  by (simp add: pos_getc_def Let_def)

lemma POS_UNGETC_cursor [simp]:
  "POS_UNGETC p (Some (tx\<lparr>tx_cursor := x\<rparr>)) = POS_UNGETC p (Some tx)"
  by (simp add: POS_UNGETC_def Let_def)

lemma VTX_store_other:
  "VTX w v = Some tx \<Longrightarrow> v \<noteq> LPtr a \<Longrightarrow> VTX (store w a ob) v = Some tx"
  by (cases v) (auto simp: VTX_def deref_store split: option.splits obj.splits if_splits dest: deref_SomeD)

lemma deref_store_same:
  "deref w (LPtr a) = Some ob \<Longrightarrow> deref (store w a ob') (LPtr a) = Some ob'"
  by (auto simp: deref_store dest: deref_SomeD)

lemma uint_not_EOF [simp]: "uint (b :: byte) \<noteq> EOF"
  by (simp add: EOF_def) (metis uint_ge_0 not_less_iff_gr_or_eq neg_less_0_iff_less zero_less_one order.strict_trans1)

lemma unget_inverts_read_string:
  assumes d: "deref w (LPtr a) = Some (OCons (LInt i) cdr)" and v: "VSTRING w cdr = Some s"
    and g: "stream_getc env w (LPtr a) = Some (c, w1)" and c: "c \<noteq> EOF"
  shows "stream_ungetc env w1 (LPtr a) c = Some (1, w) \<and> stream_getc env w (LPtr a) = Some (c, w1)"
proof -
  from g c have w1: "w1 = store w a (OCons (LInt (i + 1)) cdr)"
    by (auto simp: stream_getc_int_string [OF d v] split: option.splits if_splits)
  have ne: "cdr \<noteq> LPtr a" using d v by (rule cons_not_string)
  have d1: "deref w1 (LPtr a) = Some (OCons (LInt (i + 1)) cdr)"
    unfolding w1 using d by (rule deref_store_same)
  have v1: "VSTRING w1 cdr = Some s" unfolding w1 using v ne by (rule VSTRING_store_other)
  have "stream_ungetc env w1 (LPtr a) c = Some (1, store w1 a (OCons (LInt i) cdr))"
    using d1 v1 by (simp add: stream_ungetc_def ungetc_cons_def)
  then show ?thesis using g d by (simp add: w1 store_same)
qed

lemma unget_inverts_read_mark:
  assumes d: "deref w (LPtr a) = Some (OMark mk)"
    and g: "stream_getc env w (LPtr a) = Some (c, w1)" and c: "c \<noteq> EOF"
  shows "\<exists>w2. stream_ungetc env w1 (LPtr a) c = Some (1, w2) \<and>
              stream_getc env w2 (LPtr a) = Some (c, w1) \<and> (within_line w (LPtr a) \<longrightarrow> w2 = w)"
proof -
  from g c d obtain tx p1 where res: "MKFF_RESIDENT mk" and
    tx: "VTX w (LPtr (mk_tx mk)) = Some tx" and pg: "pos_getc tx (mk_Pos mk) = Some (c, p1)" and
    w1: "w1 = store w a (OMark (mk\<lparr>mk_Pos := p1\<rparr>))"
    by (auto simp: stream_getc_def EOF_def split: if_splits option.splits)
  from pos_unget_getc [OF pg c] obtain p2 where
    u: "POS_UNGETC p1 (Some tx) = Some p2" and g2: "pos_getc tx p2 = Some (c, p1)" and
    r: "(case line_at tx (snd (mk_Pos mk)) of Some ln \<Rightarrow> fst (mk_Pos mk) \<le> ln_Strlen ln - 1
         | None \<Rightarrow> False) \<longrightarrow> p2 = mk_Pos mk"
    by blast
  have ne: "LPtr (mk_tx mk) \<noteq> LPtr a" using d tx by (auto simp: VTX_def)
  let ?w2 = "store w a (OMark (mk\<lparr>mk_Pos := p2\<rparr>))"
  have d1: "deref w1 (LPtr a) = Some (OMark (mk\<lparr>mk_Pos := p1\<rparr>))"
    unfolding w1 using d by (rule deref_store_same)
  have t1: "VTX w1 (LPtr (mk_tx mk)) = Some tx" unfolding w1 using tx ne by (rule VTX_store_other)
  have un: "stream_ungetc env w1 (LPtr a) c = Some (1, ?w2)"
    using d1 t1 u by (simp add: stream_ungetc_def w1)
  have d2: "deref ?w2 (LPtr a) = Some (OMark (mk\<lparr>mk_Pos := p2\<rparr>))"
    using d by (rule deref_store_same)
  have t2: "VTX ?w2 (LPtr (mk_tx mk)) = Some tx" using tx ne by (rule VTX_store_other)
  have ge: "stream_getc env ?w2 (LPtr a) = Some (c, w1)"
    using d2 t2 g2 res by (simp add: stream_getc_def w1)
  have "within_line w (LPtr a) \<longrightarrow> ?w2 = w"
    using r d tx by (auto simp: within_line_def stream_pos_def store_same)
  then show ?thesis using un ge by blast
qed

lemma unget_inverts_read_buffer:
  assumes d: "deref w (LPtr a) = Some (OBuffer tx)"
    and g: "stream_getc env w (LPtr a) = Some (c, w1)" and c: "c \<noteq> EOF"
  shows "\<exists>w2. stream_ungetc env w1 (LPtr a) c = Some (1, w2) \<and>
              stream_getc env w2 (LPtr a) = Some (c, w1) \<and> (within_line w (LPtr a) \<longrightarrow> w2 = w)"
proof -
  from g c d obtain p1 where pg: "pos_getc tx (tx_cursor tx) = Some (c, p1)" and
    w1: "w1 = store w a (OBuffer (tx\<lparr>tx_cursor := p1\<rparr>))"
    by (auto simp: stream_getc_def split: if_splits option.splits)
  from pos_unget_getc [OF pg c] obtain p2 where
    u: "POS_UNGETC p1 (Some tx) = Some p2" and g2: "pos_getc tx p2 = Some (c, p1)" and
    r: "(case line_at tx (snd (tx_cursor tx)) of Some ln \<Rightarrow> fst (tx_cursor tx) \<le> ln_Strlen ln - 1
         | None \<Rightarrow> False) \<longrightarrow> p2 = tx_cursor tx"
    by blast
  let ?w2 = "store w a (OBuffer (tx\<lparr>tx_cursor := p2\<rparr>))"
  have d1: "deref w1 (LPtr a) = Some (OBuffer (tx\<lparr>tx_cursor := p1\<rparr>))"
    unfolding w1 using d by (rule deref_store_same)
  have un: "stream_ungetc env w1 (LPtr a) c = Some (1, ?w2)"
    using d1 u by (simp add: stream_ungetc_def w1)
  have d2: "deref ?w2 (LPtr a) = Some (OBuffer (tx\<lparr>tx_cursor := p2\<rparr>))"
    using d by (rule deref_store_same)
  have ge: "stream_getc env ?w2 (LPtr a) = Some (c, w1)"
    using d2 g2 by (simp add: stream_getc_def w1)
  have "within_line w (LPtr a) \<longrightarrow> ?w2 = w"
    using r d by (auto simp: within_line_def stream_pos_def store_same)
  then show ?thesis using un ge by blast
qed

lemma getc_cons_buffer_pos:
  "VTX w car = Some tx \<Longrightarrow>
   getc_cons env w a car (LPos col row) =
     (case pos_getc tx (col, row) of
        None \<Rightarrow> None
      | Some (c, p) \<Rightarrow> Some (c, store w a (OCons car (LPos (fst p) (snd p)))))"
  by (cases car) (auto simp: getc_cons_def VSTRING_def VTX_def)

lemma ungetc_cons_buffer_pos:
  "VTX w car = Some tx \<Longrightarrow>
   ungetc_cons env w a car (LPos col row) c =
     (case POS_UNGETC (col, row) (Some tx) of
        None \<Rightarrow> None
      | Some p \<Rightarrow> Some (1, store w a (OCons car (LPos (fst p) (snd p)))))"
  by (cases car) (auto simp: ungetc_cons_def VSTRING_def VTX_def)

lemma unget_inverts_read_buffer_pos:
  assumes d: "deref w (LPtr a) = Some (OCons car (LPos col row))" and tx: "VTX w car = Some tx"
    and g: "stream_getc env w (LPtr a) = Some (c, w1)" and c: "c \<noteq> EOF"
  shows "\<exists>w2. stream_ungetc env w1 (LPtr a) c = Some (1, w2) \<and>
              stream_getc env w2 (LPtr a) = Some (c, w1) \<and> (within_line w (LPtr a) \<longrightarrow> w2 = w)"
proof -
  from g c d tx obtain p1 where pg: "pos_getc tx (col, row) = Some (c, p1)" and
    w1: "w1 = store w a (OCons car (LPos (fst p1) (snd p1)))"
    by (auto simp: stream_getc_def getc_cons_buffer_pos split: if_splits option.splits)
  from pos_unget_getc [OF pg c] obtain p2 where
    u: "POS_UNGETC p1 (Some tx) = Some p2" and g2: "pos_getc tx p2 = Some (c, p1)" and
    r: "(case line_at tx (snd (col, row)) of Some ln \<Rightarrow> fst (col, row) \<le> ln_Strlen ln - 1
         | None \<Rightarrow> False) \<longrightarrow> p2 = (col, row)"
    by blast
  have ne: "car \<noteq> LPtr a" using d tx by (auto simp: VTX_def)
  let ?w2 = "store w a (OCons car (LPos (fst p2) (snd p2)))"
  have d1: "deref w1 (LPtr a) = Some (OCons car (LPos (fst p1) (snd p1)))"
    unfolding w1 using d by (rule deref_store_same)
  have t1: "VTX w1 car = Some tx" unfolding w1 using tx ne by (rule VTX_store_other)
  have un: "stream_ungetc env w1 (LPtr a) c = Some (1, ?w2)"
    using d1 t1 u by (simp add: stream_ungetc_def ungetc_cons_buffer_pos w1)
  have d2: "deref ?w2 (LPtr a) = Some (OCons car (LPos (fst p2) (snd p2)))"
    using d by (rule deref_store_same)
  have t2: "VTX ?w2 car = Some tx" using tx ne by (rule VTX_store_other)
  have ge: "stream_getc env ?w2 (LPtr a) = Some (c, w1)"
    using d2 t2 g2 by (simp add: stream_getc_def getc_cons_buffer_pos w1)
  have "within_line w (LPtr a) \<longrightarrow> ?w2 = w"
    using r d tx by (auto simp: within_line_def stream_pos_def store_same)
  then show ?thesis using un ge by blast
qed

text \<open>
  C5 (amended).  On a string input stream, a buffer, a resident mark and a
  \<open>(Buffer . Pos)\<close> stream: if \<^verbatim>\<open>stream_getc\<close> returns a character \<open>c\<close>, then
  \<^verbatim>\<open>stream_ungetc\<close> of \<open>c\<close> succeeds and the next \<^verbatim>\<open>stream_getc\<close> returns \<open>c\<close> again,
  leaving the state that the first read left.  The state after the unget is the state
  before the first read (for the position-based variants, when the position read from
  was not behind the terminator slot of its line).
\<close>

theorem unget_inverts_read:
  assumes "unget_variant w stream" and "stream_getc env w stream = Some (c, w1)" and "c \<noteq> EOF"
  shows "\<exists>w2. stream_ungetc env w1 stream c = Some (1, w2) \<and>
              stream_getc env w2 stream = Some (c, w1) \<and> (within_line w stream \<longrightarrow> w2 = w)"
proof -
  from assms(1) obtain a ob where s: "stream = LPtr a" and d: "deref w (LPtr a) = Some ob"
    by (cases stream) (auto simp: unget_variant_def split: option.splits)
  show ?thesis
  proof (cases ob)
    case (OCons car cdr)
    show ?thesis
    proof (cases car)
      case (LInt i)
      then obtain st where "VSTRING w cdr = Some st"
        using assms(1) d s OCons by (auto simp: unget_variant_def)
      then show ?thesis
        using unget_inverts_read_string [of w a i cdr st env c w1] assms(2,3) d s OCons LInt
        by auto
    next
      case (LSym x)
      then show ?thesis
        using unget_inverts_read_buffer_pos [of w a car _ _ _ env c w1] assms d s OCons
        by (auto simp: unget_variant_def split: lval.splits)
    next
      case (LPos x y)
      then show ?thesis
        using unget_inverts_read_buffer_pos [of w a car _ _ _ env c w1] assms d s OCons
        by (auto simp: unget_variant_def split: lval.splits)
    next
      case (LPtr x)
      then show ?thesis
        using unget_inverts_read_buffer_pos [of w a car _ _ _ env c w1] assms d s OCons
        by (auto simp: unget_variant_def split: lval.splits)
    qed
  next
    case (OMark mk)
    then show ?thesis using unget_inverts_read_mark [of w a mk env c w1] assms(2,3) d s by simp
  next
    case (OBuffer tx)
    then show ?thesis using unget_inverts_read_buffer [of w a tx env c w1] assms(2,3) d s by simp
  qed (use assms(1) d s in \<open>auto simp: unget_variant_def\<close>)
qed

theorem unget_inverts_read_witness:
  "unget_variant buf_world (LPtr 0) \<and>
   stream_getc null_env buf_world (LPtr 0) =
     Some (10, store buf_world 0 (OBuffer (the (VTX buf_world (LPtr 0))\<lparr>tx_cursor := (0, 1)\<rparr>))) \<and>
   10 \<noteq> EOF \<and> within_line buf_world (LPtr 0) \<and>
   stream_ungetc null_env
       (store buf_world 0 (OBuffer (the (VTX buf_world (LPtr 0))\<lparr>tx_cursor := (0, 1)\<rparr>)))
       (LPtr 0) 10 = Some (1, buf_world) \<and>
   stream_getc null_env buf_world (LPtr 0) =
     Some (10, store buf_world 0 (OBuffer (the (VTX buf_world (LPtr 0))\<lparr>tx_cursor := (0, 1)\<rparr>)))"
proof -
  have h1: "unget_variant buf_world (LPtr 0)"
    by (simp add: unget_variant_def deref_def buf_world_def)
  have h2: "stream_getc null_env buf_world (LPtr 0) =
     Some (10, store buf_world 0 (OBuffer (the (VTX buf_world (LPtr 0))\<lparr>tx_cursor := (0, 1)\<rparr>)))"
    by (simp add: stream_getc_def deref_def buf_world_def pos_getc_def line_at_def VTX_def)
  have h3: "10 \<noteq> EOF" by (simp add: EOF_def)
  have h4: "within_line buf_world (LPtr 0)"
    by (simp add: within_line_def stream_pos_def deref_def buf_world_def line_at_def)
  from unget_inverts_read [OF h1 h2 h3] h4 show ?thesis using h1 h2 h3 by blast
qed

text \<open>
  The claim as stated fails: after read, unget, read the stream has advanced by one
  character, so its state is not the state before the first read.
\<close>

theorem unget_inverts_read_counterexample:
  "stream_getc null_env ab_world (LPtr 1) =
     Some (97, store ab_world 1 (OCons (LInt 1) (LPtr 0))) \<and>
   stream_ungetc null_env (store ab_world 1 (OCons (LInt 1) (LPtr 0))) (LPtr 1) 97 =
     Some (1, ab_world) \<and>
   stream_getc null_env ab_world (LPtr 1) =
     Some (97, store ab_world 1 (OCons (LInt 1) (LPtr 0))) \<and>
   store ab_world 1 (OCons (LInt 1) (LPtr 0)) \<noteq> ab_world"
  by (simp add: stream_getc_def stream_ungetc_def getc_cons_def ungetc_cons_def deref_def
      VSTRING_def ab_world_def ab_string_def byte_at_def store_def empty_world_def)

section \<open>What the escape reader returns\<close>

lemma read_esc_final_eq:
  "read_esc_final env w stream c =
     (case stream_getc env w stream of None \<Rightarrow> None | Some (la, w1) \<Rightarrow> Some (c, la, w1))"
  by (simp add: read_esc_final_def split: option.splits prod.splits)

lemma u_char_small: "0 \<le> c \<Longrightarrow> c < 256 \<Longrightarrow> u_char c = c"
  by (simp add: u_char_def uint_word_of_int)

lemma read_esc_hex_step:
  assumes "stream_getc env w stream = Some (d, w1)" and "isxdigit d"
  shows "read_esc_hex env stream c w =
           read_esc_hex env stream (u_char (c * 16 + hex_digit_value d)) w1"
  using assms by (subst read_esc_hex.simps) (simp add: hex_digit_value_def algebra_simps)

lemma read_esc_hex_run:
  assumes "getc_times env stream (Suc (length ds)) w = Some (ds @ [z], w')"
    and "\<forall>d\<in>set ds. isxdigit d" and "\<not> isxdigit z"
  shows "read_esc_hex env stream c w = Some (hex_run_value c ds, z, w')"
  using assms
proof (induction ds arbitrary: c w)
  case Nil
  then have "stream_getc env w stream = Some (z, w')"
    by (auto split: option.splits)
  then show ?case using Nil.prems(3)
    by (subst read_esc_hex.simps) (simp add: hex_run_value_def)
next
  case (Cons d ds)
  from Cons.prems(1) obtain w1 where
    g: "stream_getc env w stream = Some (d, w1)" and
    r: "getc_times env stream (Suc (length ds)) w1 = Some (ds @ [z], w')"
    by (auto split: option.splits)
  have hd: "isxdigit d" and tl: "\<forall>d\<in>set ds. isxdigit d" using Cons.prems(2) by auto
  have ih: "read_esc_hex env stream c' w1 = Some (hex_run_value c' ds, z, w')" for c'
    by (rule Cons.IH [OF r tl Cons.prems(3)])
  show ?case
    by (simp add: read_esc_hex_step [OF g hd] ih) (simp add: hex_run_value_def)
qed

text \<open>
  C8.  \<^verbatim>\<open>stream_read_esc\<close> maps \<open>n r f t v a\<close> to their C control values and reads
  one character of lookahead; for \<open>^\<close> it reads a character \<open>X\<close>, yields
  \<open>toupper(X) XOR 0x40\<close> and reads the lookahead; for a first character in \<open>0..7\<close> it
  takes up to three octal digits, the first non-octal character read being the
  lookahead, and after three digits reads the lookahead; for \<open>x\<close> it takes the whole
  run of hex digits, upper or lower case, and the first non-hex character is the
  lookahead; any other character is returned as it is, with one character of
  lookahead read.
\<close>

theorem read_escape:
  "(c_p \<in> {110, 114, 102, 116, 118, 97} \<longrightarrow>
      stream_read_esc env w stream c_p =
        (case stream_getc env w stream of
           None \<Rightarrow> None
         | Some (la, w1) \<Rightarrow> Some (c_escape_value c_p, la, w1))) \<and>
   (stream_getc env w stream = Some (x, w1) \<and> 0 \<le> x \<and> x \<le> 255 \<longrightarrow>
      stream_read_esc env w stream 94 =
        (case stream_getc env w1 stream of
           None \<Rightarrow> None
         | Some (la, w2) \<Rightarrow> Some (toupper x XOR 64, la, w2))) \<and>
   (is_octal c_p \<and> stream_getc env w stream = Some (c1, w1) \<and> \<not> is_octal c1 \<longrightarrow>
      stream_read_esc env w stream c_p = Some (c_p - 48, c1, w1)) \<and>
   (is_octal c_p \<and> stream_getc env w stream = Some (c1, w1) \<and> is_octal c1 \<and>
    stream_getc env w1 stream = Some (c2, w2) \<and> \<not> is_octal c2 \<longrightarrow>
      stream_read_esc env w stream c_p = Some ((c_p - 48) * 8 + (c1 - 48), c2, w2)) \<and>
   (is_octal c_p \<and> stream_getc env w stream = Some (c1, w1) \<and> is_octal c1 \<and>
    stream_getc env w1 stream = Some (c2, w2) \<and> is_octal c2 \<longrightarrow>
      stream_read_esc env w stream c_p =
        (case stream_getc env w2 stream of
           None \<Rightarrow> None
         | Some (la, w3) \<Rightarrow>
             Some ((((c_p - 48) * 8 + (c1 - 48)) * 8 + (c2 - 48)) mod 256, la, w3))) \<and>
   (getc_times env stream (Suc (length ds)) w = Some (ds @ [z], w') \<and>
    (\<forall>d\<in>set ds. isxdigit d) \<and> \<not> isxdigit z \<longrightarrow>
      stream_read_esc env w stream 120 = Some (hex_run_value 0 ds, z, w')) \<and>
   (c_p \<notin> {110, 114, 102, 116, 118, 97, 94, 120} \<and> \<not> is_octal c_p \<and> 0 \<le> c_p \<and> c_p \<le> 255 \<longrightarrow>
      stream_read_esc env w stream c_p =
        (case stream_getc env w stream of
           None \<Rightarrow> None
         | Some (la, w1) \<Rightarrow> Some (c_p, la, w1)))"
proof (intro conjI impI)
  assume "c_p \<in> {110, 114, 102, 116, 118, 97}"
  then show "stream_read_esc env w stream c_p =
        (case stream_getc env w stream of
           None \<Rightarrow> None
         | Some (la, w1) \<Rightarrow> Some (c_escape_value c_p, la, w1))"
    by (auto simp: stream_read_esc_def read_esc_final_eq c_escape_value_def split: option.splits)
next
  assume a: "stream_getc env w stream = Some (x, w1) \<and> 0 \<le> x \<and> x \<le> 255"
  then have t: "0 \<le> toupper x" "toupper x < 2 ^ 8" by (auto simp: toupper_def)
  have "toupper x XOR 64 < 2 ^ 8" using t by (intro XOR_upper) simp_all
  moreover have "0 \<le> toupper x XOR 64" using t by simp
  ultimately have "u_char (toupper x XOR 64) = toupper x XOR 64" by (simp add: u_char_small)
  then show "stream_read_esc env w stream 94 =
        (case stream_getc env w1 stream of
           None \<Rightarrow> None
         | Some (la, w2) \<Rightarrow> Some (toupper x XOR 64, la, w2))"
    using a by (simp add: stream_read_esc_def read_esc_final_eq)
next
  assume "is_octal c_p \<and> stream_getc env w stream = Some (c1, w1) \<and> \<not> is_octal c1"
  then show "stream_read_esc env w stream c_p = Some (c_p - 48, c1, w1)"
    by (auto simp: stream_read_esc_def read_esc_octal_def is_octal_def Let_def u_char_small)
next
  assume "is_octal c_p \<and> stream_getc env w stream = Some (c1, w1) \<and> is_octal c1 \<and>
    stream_getc env w1 stream = Some (c2, w2) \<and> \<not> is_octal c2"
  then show "stream_read_esc env w stream c_p = Some ((c_p - 48) * 8 + (c1 - 48), c2, w2)"
    by (auto simp: stream_read_esc_def read_esc_octal_def is_octal_def Let_def u_char_small)
next
  assume a: "is_octal c_p \<and> stream_getc env w stream = Some (c1, w1) \<and> is_octal c1 \<and>
    stream_getc env w1 stream = Some (c2, w2) \<and> is_octal c2"
  have u: "u_char v = v mod 256" for v by (simp add: u_char_def uint_word_of_int)
  from a have s: "u_char (c_p - 48) = c_p - 48" "u_char ((c_p - 48) * 8 + (c1 - 48)) = (c_p - 48) * 8 + (c1 - 48)"
    by (auto simp: is_octal_def u_char_small)
  show "stream_read_esc env w stream c_p =
        (case stream_getc env w2 stream of
           None \<Rightarrow> None
         | Some (la, w3) \<Rightarrow>
             Some ((((c_p - 48) * 8 + (c1 - 48)) * 8 + (c2 - 48)) mod 256, la, w3))"
    using a s
    by (simp add: stream_read_esc_def read_esc_octal_def is_octal_def Let_def read_esc_final_eq)
      (simp add: u split: option.splits)
next
  assume "getc_times env stream (Suc (length ds)) w = Some (ds @ [z], w') \<and>
    (\<forall>d\<in>set ds. isxdigit d) \<and> \<not> isxdigit z"
  then show "stream_read_esc env w stream 120 = Some (hex_run_value 0 ds, z, w')"
    using read_esc_hex_run [of env stream ds w z w' 0] by (simp add: stream_read_esc_def)
next
  assume "c_p \<notin> {110, 114, 102, 116, 118, 97, 94, 120} \<and> \<not> is_octal c_p \<and> 0 \<le> c_p \<and> c_p \<le> 255"
  then show "stream_read_esc env w stream c_p =
        (case stream_getc env w stream of
           None \<Rightarrow> None
         | Some (la, w1) \<Rightarrow> Some (c_p, la, w1))"
    by (auto simp: stream_read_esc_def read_esc_final_eq is_octal_def u_char_small)
qed

theorem read_escape_witness:
  "stream_read_esc null_env (esc_world [97, 98]) (LPtr 1) 110 =
     Some (10, 97, esc_world_at [97, 98] 1) \<and>
   stream_read_esc null_env (esc_world [97, 98]) (LPtr 1) 94 =
     Some (1, 98, esc_world_at [97, 98] 2) \<and>
   stream_read_esc null_env (esc_world [122]) (LPtr 1) 49 =
     Some (1, 122, esc_world_at [122] 1) \<and>
   stream_read_esc null_env (esc_world [55, 122]) (LPtr 1) 49 =
     Some (15, 122, esc_world_at [55, 122] 2) \<and>
   stream_read_esc null_env (esc_world [55, 55, 122]) (LPtr 1) 51 =
     Some (255, 122, esc_world_at [55, 55, 122] 3) \<and>
   stream_read_esc null_env (esc_world [52, 49, 122]) (LPtr 1) 120 =
     Some (65, 122, esc_world_at [52, 49, 122] 3) \<and>
   stream_read_esc null_env (esc_world [97, 98]) (LPtr 1) 113 =
     Some (113, 97, esc_world_at [97, 98] 1)"
proof -
  have g: "stream_getc null_env (esc_world_at S i) (LPtr (Suc 0)) =
      (case byte_at (S @ [0]) i of
         None \<Rightarrow> None
       | Some b \<Rightarrow> if b \<noteq> 0 then Some (uint b, esc_world_at S (i + 1))
                   else Some (EOF, esc_world_at S i))" for S i
    by (simp add: stream_getc_def getc_cons_def deref_def VSTRING_def esc_world_at_def store_def
        split: option.splits)
  have e: "esc_world S = esc_world_at S 0" for S
    by (simp add: esc_world_def esc_world_at_def)
  have x: "toupper 97 XOR 64 = 1" by (simp add: toupper_def)
  have h: "hex_run_value 0 [52, 49] = 65"
    by (simp add: hex_run_value_def hex_digit_value_def u_char_def)
  have t: "getc_times null_env (LPtr 1) (Suc (length [52, 49 :: int])) (esc_world [52, 49, 122]) =
      Some ([52, 49] @ [122], esc_world_at [52, 49, 122] 3)"
    by (simp add: e g byte_at_def)
  have hx: "\<forall>d\<in>set [52, 49 :: int]. isxdigit d" "\<not> isxdigit 122"
    by (simp_all add: isxdigit_def)
  note r = read_escape [where env = null_env and stream = "LPtr 1"]
  have c1: "stream_read_esc null_env (esc_world [97, 98]) (LPtr 1) 110 =
     Some (10, 97, esc_world_at [97, 98] 1)"
    using r [of 110 "esc_world [97, 98]"] by (simp add: e g byte_at_def c_escape_value_def)
  have c2: "stream_read_esc null_env (esc_world [97, 98]) (LPtr 1) 94 =
     Some (1, 98, esc_world_at [97, 98] 2)"
    using r [of _ "esc_world [97, 98]" 97 "esc_world_at [97, 98] 1"]
    by (simp add: e g byte_at_def x)
  have c3: "stream_read_esc null_env (esc_world [122]) (LPtr 1) 49 =
     Some (1, 122, esc_world_at [122] 1)"
    using r [of 49 "esc_world [122]" _ "esc_world_at [122] 1" 122]
    by (simp add: e g byte_at_def is_octal_def)
  have c4: "stream_read_esc null_env (esc_world [55, 122]) (LPtr 1) 49 =
     Some (15, 122, esc_world_at [55, 122] 2)"
    using r [of 49 "esc_world [55, 122]" _ "esc_world_at [55, 122] 1" 55 122
        "esc_world_at [55, 122] 2"]
    by (simp add: e g byte_at_def is_octal_def)
  have c5: "stream_read_esc null_env (esc_world [55, 55, 122]) (LPtr 1) 51 =
     Some (255, 122, esc_world_at [55, 55, 122] 3)"
    using r [of 51 "esc_world [55, 55, 122]" _ "esc_world_at [55, 55, 122] 1" 55 55
        "esc_world_at [55, 55, 122] 2"]
    by (simp add: e g byte_at_def is_octal_def)
  have c6: "stream_read_esc null_env (esc_world [52, 49, 122]) (LPtr 1) 120 =
     Some (65, 122, esc_world_at [52, 49, 122] 3)"
    using r [of _ "esc_world [52, 49, 122]" _ _ _ _ _ "[52, 49]" 122 "esc_world_at [52, 49, 122] 3"]
      t hx h by simp
  have c7: "stream_read_esc null_env (esc_world [97, 98]) (LPtr 1) 113 =
     Some (113, 97, esc_world_at [97, 98] 1)"
    using r [of 113 "esc_world [97, 98]"] by (simp add: e g byte_at_def is_octal_def)
  show ?thesis using c1 c2 c3 c4 c5 c6 c7 by blast
qed

section \<open>What \<^verbatim>\<open>copy-stream\<close> delivers\<close>

lemma copy_loop_fill:
  assumes "deref w (LPtr a) = Some (OCons (LInt (int i)) string)"
    and "VSTRING w string = Some s"
    and "\<forall>j. i \<le> j \<and> j < i + k \<longrightarrow> j < length (str_mem s) \<and> str_mem s ! j \<noteq> 0"
    and "int (length buff) + int k \<le> COPY_BUFSIZ - 1"
    and "\<forall>w. test_int env w = (False, w)"
  shows "copy_loop env (LPtr a) dest w len buff =
           copy_loop env (LPtr a) dest (store w a (OCons (LInt (int (i + k))) string))
             (len + int k) (buff @ map (\<lambda>j. str_mem s ! j) [i..<i + k])"
  using assms
proof (induction k arbitrary: i w len buff)
  case 0
  then show ?case by (simp add: store_same)
next
  case (Suc k)
  from Suc.prems(3) have b: "byte_at (str_mem s) (int i) = Some (str_mem s ! i)" "str_mem s ! i \<noteq> 0"
    by (auto simp: byte_at_def)
  let ?w1 = "store w a (OCons (LInt (int i + 1)) string)"
  have g: "stream_getc env w (LPtr a) = Some (uint (str_mem s ! i), ?w1)"
    using Suc.prems(1,2) b by (simp add: stream_getc_int_string)
  have ne: "string \<noteq> LPtr a" using Suc.prems(1,2) by (rule cons_not_string)
  have d1: "deref ?w1 (LPtr a) = Some (OCons (LInt (int (Suc i))) string)"
    using Suc.prems(1) by (auto simp: deref_store dest: deref_SomeD)
  have s1: "VSTRING ?w1 string = Some s"
    using Suc.prems(2) ne by (rule VSTRING_store_other)
  have r: "\<forall>j. Suc i \<le> j \<and> j < Suc i + k \<longrightarrow> j < length (str_mem s) \<and> str_mem s ! j \<noteq> 0"
    using Suc.prems(3) by auto
  have l: "int (length (buff @ [str_mem s ! i])) + int k \<le> COPY_BUFSIZ - 1"
    using Suc.prems(4) by simp
  have nf: "\<not> int (length buff) \<ge> COPY_BUFSIZ - 1" using Suc.prems(4) by simp
  have ih: "copy_loop env (LPtr a) dest ?w1 (len + 1) (buff @ [str_mem s ! i]) =
      copy_loop env (LPtr a) dest (store ?w1 a (OCons (LInt (int (Suc i + k))) string))
        (len + 1 + int k) ((buff @ [str_mem s ! i]) @ map (\<lambda>j. str_mem s ! j) [Suc i..<Suc i + k])"
    by (rule Suc.IH [OF d1 s1 r l Suc.prems(5)])
  have u: "[i..<i + Suc k] = i # [Suc i..<Suc i + k]"
    by (simp add: upt_conv_Cons)
  have step: "copy_loop env (LPtr a) dest w len buff =
      copy_loop env (LPtr a) dest ?w1 (len + 1) (buff @ [str_mem s ! i])"
    using g nf Suc.prems(5) by (subst copy_loop.simps) simp
  show ?case unfolding step ih u by (simp add: algebra_simps)
qed

lemma nth_copy_source: "j < 511 \<Longrightarrow> (replicate 511 (97::byte) @ [98, 0]) ! j = 97"
  by (simp add: nth_append)

lemma copy_source_prefix:
  "map (\<lambda>j. (replicate 511 (97::byte) @ [98, 0]) ! j) [0..<0 + 511] = replicate 511 97"
  by (rule nth_equalityI) (simp_all add: nth_copy_source)

text \<open>
  C1.  \<^verbatim>\<open>copy-stream\<close> does not deliver every byte it counts.  While the buffer has
  room the loop stores the character read; when 511 bytes are buffered it flushes them
  and the character just read is stored nowhere, yet it is counted.  Copying the
  512-byte source delivers its first 511 bytes and returns 512: the last byte \<open>b\<close>
  never reaches the destination.
\<close>

theorem copy_stream_drops_byte:
  "(case cmd_copy_stream null_env copy_world (LPtr 1) (LPtr 3) of
      None \<Rightarrow> None
    | Some (r, w) \<Rightarrow> Some (r, dest_payload w (LPtr 3))) =
   Some (Some (LInt 512), Some (replicate 511 97))"
proof -
  let ?s = "\<lparr>str_mem = replicate 511 97 @ [98, 0], str_len = 512, str_writable = True\<rparr>"
  have d: "deref copy_world (LPtr 1) = Some (OCons (LInt (int 0)) (LPtr 0))"
    by (simp add: copy_world_def deref_def)
  have v: "VSTRING copy_world (LPtr 0) = Some ?s"
    by (simp add: copy_world_def VSTRING_def deref_def)
  have nz: "\<forall>j. 0 \<le> j \<and> j < 0 + 511 \<longrightarrow> j < length (str_mem ?s) \<and> str_mem ?s ! j \<noteq> 0"
    by (simp add: nth_copy_source)
  have l: "int (length ([]::byte list)) + int 511 \<le> COPY_BUFSIZ - 1"
    by (simp add: COPY_BUFSIZ_def)
  have t: "\<forall>w. test_int null_env w = (False, w)" by (simp add: null_env_def)
  let ?wa = "store copy_world 1 (OCons (LInt (int (0 + 511))) (LPtr 0))"
  have fill: "copy_loop null_env (LPtr 1) (LPtr 3) copy_world 0 [] =
      copy_loop null_env (LPtr 1) (LPtr 3) ?wa 511 (replicate 511 97)"
    using copy_loop_fill [OF d v nz l t, of "LPtr 3" 0] copy_source_prefix by simp
  have ga: "stream_getc null_env ?wa (LPtr 1) =
      Some (98, store copy_world 1 (OCons (LInt 512) (LPtr 0)))"
    by (simp add: stream_getc_def getc_cons_def copy_world_def deref_def store_def VSTRING_def
        byte_at_def nth_append)
  let ?wb = "store copy_world 1 (OCons (LInt 512) (LPtr 0))"
  let ?wc = "empty_world\<lparr>heap :=
       [OString ?s, OCons (LInt 512) (LPtr 0),
        OString \<lparr>str_mem = [0], str_len = 0, str_writable = True\<rparr>,
        OCons (LPtr 4) (LInt 512),
        OString \<lparr>str_mem = replicate 511 97 @ [0, 0], str_len = 511, str_writable = True\<rparr>]\<rparr>"
  have pb: "stream_puts null_env ?wb (LPtr 3) (RawBuf (replicate 511 97 @ [0])) 511 = Some (511, ?wc)"
    by (simp add: stream_puts_def puts_cons_def puts_string_def puts_store_def make_string_def
        memcpy_VSTR_def memcpy_def poke_def copy_world_def deref_def store_def VSTRING_def
        null_env_def empty_world_def Let_def list_update_append numeral_2_eq_2)
  have step: "copy_loop null_env (LPtr 1) (LPtr 3) ?wa 511 (replicate 511 97) =
      copy_loop null_env (LPtr 1) (LPtr 3) ?wc 512 []"
    using ga pb t by (subst copy_loop.simps) (simp add: COPY_BUFSIZ_def EOF_def)
  have gc: "stream_getc null_env ?wc (LPtr 1) = Some (EOF, ?wc)"
    by (simp add: stream_getc_def getc_cons_def deref_def VSTRING_def byte_at_def nth_append)
  have fin: "copy_loop null_env (LPtr 1) (LPtr 3) ?wc 512 [] = Some (Some (LInt 512), ?wc)"
    using gc by (subst copy_loop.simps) (simp add: copy_flush_def)
  have pay: "dest_payload ?wc (LPtr 3) = Some (replicate 511 97)"
    by (simp add: dest_payload_def deref_def VSTRING_def)
  show ?thesis
    unfolding cmd_copy_stream_def fill step fin by (simp add: pay)
qed

section \<open>Opening a file that cannot be opened\<close>

lemma VSTRING_append:
  "VSTRING w v = Some s \<Longrightarrow> VSTRING (w\<lparr>heap := heap w @ xs\<rparr>) v = Some s"
  by (cases v) (auto simp: VSTRING_def deref_def nth_append split: if_splits option.splits obj.splits)

lemma deref_chain [simp]: "deref (w\<lparr>lfile_chain := c\<rparr>) v = deref w v"
  by (cases v) (simp_all add: deref_def)

lemma deref_host [simp]: "deref (w\<lparr>host := h\<rparr>) v = deref w v"
  by (cases v) (simp_all add: deref_def)

lemma VSTRING_chain [simp]: "VSTRING (w\<lparr>lfile_chain := c\<rparr>) v = VSTRING w v"
  by (simp add: VSTRING_def)

lemma VSTRING_host [simp]: "VSTRING (w\<lparr>host := h\<rparr>) v = VSTRING w v"
  by (simp add: VSTRING_def)

text \<open>
  C6 (amended).  When \<^verbatim>\<open>open\<close> is called with a name string and a mode string, no file
  object to reuse, and \<^verbatim>\<open>fopen\<close> fails, it raises \<open>file-error\<close> with the errno-derived
  message and, as second element, the requested name, and returns \<^verbatim>\<open>LISP_NULL\<close>.  The
  freshly allocated file object was linked at the head of the file chain when it was
  allocated and is still there, unbound; the next sweep frees it first, closing no
  handle.
\<close>

theorem open_failure:
  assumes nf: "\<forall>lf. deref w file \<noteq> Some (OFile lf)"
    and nm: "VSTRING w name = Some ns" and md: "VSTRING w modes = Some ms"
    and cp: "c_string (str_mem ns) = Some path" and cm: "c_string (str_mem ms) = Some mode"
    and al: "alloc_cell env w"
    and fo: "c_fopen env path mode (host w) = (None, h1)"
  shows "cmd_open env w name modes file =
           Some (None, cmd_signal (snd (lookup_errno env (open_failed w h1))) sym_file_error
                         [fst (lookup_errno env (open_failed w h1)), name]) \<and>
         lfile_chain (open_failed w h1) = length (heap w) # lfile_chain w \<and>
         deref (open_failed w h1) (LPtr (length (heap w))) = Some (OFile unbound_file) \<and>
         file_sweep env (open_failed w h1) =
           sweep_loop env (lfile_chain w)
             (store ((open_failed w h1)\<lparr>lfile_chain := []\<rparr>) (length (heap w)) OFree)"
proof -
  let ?a = "length (heap w)"
  let ?w1 = "w\<lparr>heap := heap w @ [OFile unbound_file], lfile_chain := ?a # lfile_chain w\<rparr>"
  have w2: "open_failed w h1 = ?w1\<lparr>host := h1\<rparr>" by (simp add: open_failed_def)
  have oa: "open_alloc env w file = Some (Some ?a, ?w1)"
    using nf al
    by (auto simp: open_alloc_def unbound_file_def split: lval.splits option.splits obj.splits)
  have st: "store ?w1 ?a (OFile unbound_file) = ?w1" by (simp add: store_def)
  have v1: "VSTRING ?w1 name = Some ns" "VSTRING ?w1 modes = Some ms"
    using VSTRING_append [OF nm, of "[OFile unbound_file]"]
      VSTRING_append [OF md, of "[OFile unbound_file]"] by simp_all
  have "cmd_open env w name modes file =
      Some (None, cmd_signal (snd (lookup_errno env (open_failed w h1))) sym_file_error
                    [fst (lookup_errno env (open_failed w h1)), name])"
    using oa v1 cp cm fo st
    by (simp add: cmd_open_def Let_def unbound_file_def [symmetric] w2)
  moreover have "lfile_chain (open_failed w h1) = ?a # lfile_chain w" by (simp add: w2)
  moreover have "deref (open_failed w h1) (LPtr ?a) = Some (OFile unbound_file)"
    by (simp add: w2 deref_def)
  moreover have "file_sweep env (open_failed w h1) =
      sweep_loop env (lfile_chain w) (store ((open_failed w h1)\<lparr>lfile_chain := []\<rparr>) ?a OFree)"
    by (simp add: w2 file_sweep_def deref_def unbound_file_def)
  ultimately show ?thesis by blast
qed

theorem open_failure_witness:
  "(\<forall>lf. deref open_world sym_nil \<noteq> Some (OFile lf)) \<and>
   VSTRING open_world (LPtr 0) = Some \<lparr>str_mem = [120, 0], str_len = 1, str_writable = True\<rparr> \<and>
   VSTRING open_world (LPtr 1) = Some \<lparr>str_mem = [114, 0], str_len = 1, str_writable = True\<rparr> \<and>
   c_string [120, 0] = Some [120] \<and> c_string [114, 0] = Some [114] \<and>
   alloc_cell null_env open_world \<and>
   c_fopen null_env [120] [114] (host open_world) = (None, ()) \<and>
   cmd_open null_env open_world (LPtr 0) (LPtr 1) sym_nil =
     Some (None, cmd_signal (snd (lookup_errno null_env (open_failed open_world ()))) sym_file_error
                   [fst (lookup_errno null_env (open_failed open_world ())), LPtr 0]) \<and>
   lfile_chain (open_failed open_world ()) = length (heap open_world) # lfile_chain open_world"
proof -
  have h1: "\<forall>lf. deref open_world sym_nil \<noteq> Some (OFile lf)" by (simp add: sym_nil_def)
  have h2: "VSTRING open_world (LPtr 0) =
      Some \<lparr>str_mem = [120, 0], str_len = 1, str_writable = True\<rparr>"
    by (simp add: VSTRING_def deref_def open_world_def)
  have h3: "VSTRING open_world (LPtr 1) =
      Some \<lparr>str_mem = [114, 0], str_len = 1, str_writable = True\<rparr>"
    by (simp add: VSTRING_def deref_def open_world_def)
  have h4: "c_string (str_mem \<lparr>str_mem = [120, 0], str_len = 1, str_writable = True\<rparr>) = Some [120]"
    by (simp add: c_string_def strlen_def)
  have h5: "c_string (str_mem \<lparr>str_mem = [114, 0], str_len = 1, str_writable = True\<rparr>) = Some [114]"
    by (simp add: c_string_def strlen_def)
  have h6: "alloc_cell null_env open_world" by (simp add: null_env_def)
  have h7: "c_fopen null_env [120] [114] (host open_world) = (None, ())"
    by (simp add: null_env_def)
  from open_failure [OF h1 h2 h3 h4 h5 h6 h7] show ?thesis
    using h1 h2 h3 h4 h5 h6 h7 by simp
qed

text \<open>
  The claim as stated fails: after the failed \<^verbatim>\<open>open\<close> the chain, empty before, holds
  the new file object.
\<close>

theorem open_failure_chain_counterexample:
  "cmd_open null_env open_world (LPtr 0) (LPtr 1) sym_nil =
     Some (None,
           open_world\<lparr>heap := heap open_world @ [OFile unbound_file],
                       lfile_chain := [2],
                       signals := [(sym_file_error,
                                    [LSym ''No such file or directory'', LPtr 0])]\<rparr>) \<and>
   lfile_chain open_world = [] \<and> [2] \<noteq> lfile_chain open_world"
  by (simp add: cmd_open_def open_alloc_def open_world_def empty_world_def null_env_def
      sym_nil_def deref_def VSTRING_def c_string_def strlen_def store_def cmd_signal_def
      unbound_file_def Let_def)

section \<open>The \<^verbatim>\<open>LENGTH\<close> argument of \<^verbatim>\<open>write\<close>\<close>







end
